theory Spec2Isabelle
  imports Complex_Main "HOL-Library.Word"
begin

unbundle bit_operations_syntax

section \<open>JavaScript strings and the built-ins the sources call\<close>

text \<open>
  A JavaScript string is the list of its code units. The development covers the code
  units below 256, so a string is a \<^typ>\<open>string\<close> and \<open>of_char c\<close> is the code unit.
  The white space of \<open>String.prototype.trim\<close>, of the regular expression class
  \<open>\s\<close> and of \<open>parseInt\<close>/\<open>parseFloat\<close> is the same set (ECMA-262 WhiteSpace and
  LineTerminator); below 256 it is TAB, LF, VT, FF, CR, SP and NBSP.
\<close>

definition isWhiteSpace :: "char \<Rightarrow> bool" where
  "isWhiteSpace c \<longleftrightarrow> (of_char c :: nat) \<in> {9, 10, 11, 12, 13, 32, 160}"

definition trimStart :: "string \<Rightarrow> string" where
  "trimStart s = dropWhile isWhiteSpace s"

definition trimEnd :: "string \<Rightarrow> string" where
  "trimEnd s = rev (dropWhile isWhiteSpace (rev s))"

definition trim :: "string \<Rightarrow> string" where
  "trim s = trimEnd (trimStart s)"

text \<open>\<open>s.split(/\s+/)\<close>: the pieces between the maximal runs of white space; a
  leading or trailing run leaves an empty piece, and the empty string gives \<open>[""]\<close>.\<close>

function split_ws :: "string \<Rightarrow> string list" where
  "split_ws s =
     (let tok = takeWhile (\<lambda>c. \<not> isWhiteSpace c) s;
          rest = dropWhile (\<lambda>c. \<not> isWhiteSpace c) s
      in if rest = [] then [tok] else tok # split_ws (dropWhile isWhiteSpace rest))"
  by pat_completeness auto
termination
proof (relation "measure length")
  show "wf (measure length)" by simp
next
  fix s tok rest :: string
  assume rest: "rest = dropWhile (\<lambda>c. \<not> isWhiteSpace c) s" and ne: "rest \<noteq> []"
  from ne obtain c cs where cs: "rest = c # cs" by (cases rest) auto
  with rest have "isWhiteSpace c" by (metis hd_dropWhile list.sel(1) ne)
  then have "length (dropWhile isWhiteSpace rest) \<le> length cs"
    using cs by (simp add: length_dropWhile_le)
  moreover have "length rest \<le> length s"
    using rest by (simp add: length_dropWhile_le)
  ultimately show "(dropWhile isWhiteSpace rest, s) \<in> measure length"
    using cs by simp
qed

declare split_ws.simps [simp del]

text \<open>\<open>xs.join(sep)\<close>\<close>

fun join :: "string \<Rightarrow> string list \<Rightarrow> string" where
  "join sep [] = []"
| "join sep [x] = x"
| "join sep (x # y # ys) = x @ sep @ join sep (y # ys)"

text \<open>\<open>s.substring(a, b)\<close> with non-negative arguments: both are clamped to the
  length and swapped when \<open>a > b\<close>.\<close>

definition substring :: "string \<Rightarrow> nat \<Rightarrow> nat \<Rightarrow> string" where
  "substring s a b =
     (let a' = min a (length s); b' = min b (length s);
          lo = min a' b'; hi = max a' b'
      in take (hi - lo) (drop lo s))"

definition startsWith :: "string \<Rightarrow> string \<Rightarrow> bool" where
  "startsWith s p \<longleftrightarrow> take (length p) s = p"

text \<open>\<open>s.includes(p)\<close>\<close>

fun includesStr :: "string \<Rightarrow> string \<Rightarrow> bool" where
  "includesStr [] p \<longleftrightarrow> p = []"
| "includesStr (c # cs) p \<longleftrightarrow> startsWith (c # cs) p \<or> includesStr cs p"

text \<open>\<open>s.toLowerCase()\<close> on code units below 256: A..Z and the Latin-1 capitals
  U+00C0..U+00DE (the multiplication sign U+00D7 apart) move up by 32.\<close>

definition toLowerChar :: "char \<Rightarrow> char" where
  "toLowerChar c =
     (let n = (of_char c :: nat)
      in if (65 \<le> n \<and> n \<le> 90) \<or> (192 \<le> n \<and> n \<le> 222 \<and> n \<noteq> 215)
         then char_of (n + 32) else c)"

definition toLowerCase :: "string \<Rightarrow> string" where
  "toLowerCase s = map toLowerChar s"

text \<open>\<open>s.padEnd(n)\<close>: spaces are appended up to length \<open>n\<close>.\<close>

definition padEnd :: "string \<Rightarrow> nat \<Rightarrow> string" where
  "padEnd s n = s @ replicate (n - length s) CHR '' ''"

subsection \<open>Numbers\<close>

text \<open>
  A JavaScript number is an IEEE-754 double: NaN, an infinity, or a signed finite
  value. \<open>Num neg q\<close> is the double of sign \<open>neg\<close> and magnitude \<open>q\<close>, a rational that a
  double can hold; \<open>Num True 0\<close> is negative zero.
\<close>

datatype number = NaN | Infinity (negative: bool) | Num (negative: bool) (magnitude: rat)

definition isNaN :: "number \<Rightarrow> bool" where
  "isNaN x \<longleftrightarrow> x = NaN"

text \<open>The number of binary digits of a natural number.\<close>

fun bitLength :: "nat \<Rightarrow> nat" where
  "bitLength n = (if n = 0 then 0 else Suc (bitLength (n div 2)))"

declare bitLength.simps [simp del]

text \<open>\<open>2^e \<le> a / b\<close>, in whole numbers.\<close>

definition pow2le :: "int \<Rightarrow> nat \<Rightarrow> nat \<Rightarrow> bool" where
  "pow2le e a b = (if 0 \<le> e then 2 ^ nat e * b \<le> a else b \<le> a * 2 ^ nat (- e))"

text \<open>\<open>num / den\<close> rounded to the nearest whole number, a tie going to the even one.\<close>

definition roundHalfEven :: "nat \<Rightarrow> nat \<Rightarrow> nat" where
  "roundHalfEven num den =
     (let q = num div den; r = num mod den
      in if 2 * r < den then q
         else if den < 2 * r then q + 1
         else if even q then q else q + 1)"

text \<open>
  The Number value of a mathematical value (ECMA-262): the double nearest to
  \<open>a / b\<close> (\<open>b > 0\<close>), a tie going to the even significand, with the sign given. \<open>e\<close> is
  the binary exponent of \<open>a / b\<close>, raised to \<open>-1022\<close> in the subnormal range; the
  significand has 53 bits, so the spacing of the doubles there is \<open>2^(e - 52)\<close>. A
  result of \<open>2^1024\<close> or more is an infinity, and a value below half the smallest
  subnormal is a zero.
\<close>

definition toDouble :: "bool \<Rightarrow> nat \<Rightarrow> nat \<Rightarrow> number" where
  "toDouble neg a b =
     (if a = 0 then Num neg 0
      else
        (let e0 = int (bitLength a) - int (bitLength b);
             e = (if pow2le e0 a b then e0 else e0 - 1);
             shift = max e (- 1022) - 52
         in if 0 \<le> shift then
              (let m = roundHalfEven a (b * 2 ^ nat shift)
               in if 2 ^ 1024 \<le> m * 2 ^ nat shift then Infinity neg
                  else Num neg (of_nat (m * 2 ^ nat shift)))
            else Num neg (of_nat (roundHalfEven (a * 2 ^ nat (- shift)) b) / 2 ^ nat (- shift))))"

text \<open>The Number value of the decimal \<open>m \<times> 10^e\<close>.\<close>

definition decimalToDouble :: "bool \<Rightarrow> nat \<Rightarrow> int \<Rightarrow> number" where
  "decimalToDouble neg m e =
     (if 0 \<le> e then toDouble neg (m * 10 ^ nat e) 1 else toDouble neg m (10 ^ nat (- e)))"

definition isDigit :: "char \<Rightarrow> bool" where
  "isDigit c \<longleftrightarrow> 48 \<le> (of_char c :: nat) \<and> (of_char c :: nat) \<le> 57"

definition digitsValue :: "string \<Rightarrow> nat" where
  "digitsValue ds = foldl (\<lambda>a c. 10 * a + (of_char c - 48)) 0 ds"

text \<open>An optional sign in front of a literal: the flag says whether it was \<open>-\<close>.\<close>

fun stripSign :: "string \<Rightarrow> bool \<times> string" where
  "stripSign [] = (False, [])"
| "stripSign (c # cs) =
     (if c = CHR ''-'' then (True, cs)
      else if c = CHR ''+'' then (False, cs)
      else (False, c # cs))"

text \<open>\<open>parseInt(s, 10)\<close>: leading white space is skipped, a sign is read, and the
  longest run of decimal digits that follows is the value, as a double; what comes
  after the digits is ignored. Without a digit the result is NaN.\<close>

definition parseInt10 :: "string \<Rightarrow> number" where
  "parseInt10 s =
     (let (neg, r) = stripSign (trimStart s);
          z = takeWhile isDigit r
      in if z = [] then NaN else toDouble neg (digitsValue z) 1)"

text \<open>The exponent part of a decimal literal: \<open>e\<close> or \<open>E\<close>, an optional sign and at
  least one digit. When the text does not start with a complete exponent part, the
  literal ends before it and the exponent is 0.\<close>

definition exponentPart :: "string \<Rightarrow> int" where
  "exponentPart r =
     (case r of
        [] \<Rightarrow> 0
      | c # cs \<Rightarrow>
          if c = CHR ''e'' \<or> c = CHR ''E'' then
            (let (neg, r') = stripSign cs; ds = takeWhile isDigit r'
             in if ds = [] then 0
                else if neg then - int (digitsValue ds) else int (digitsValue ds))
          else 0)"

text \<open>\<open>parseFloat(s)\<close>: leading white space is skipped and the longest prefix that is
  a StrDecimalLiteral is the value, as a double: a sign, then \<open>Infinity\<close> or digits
  with an optional fraction and an optional exponent part (\<open>1.\<close>, \<open>.5\<close> and \<open>1e5\<close> are
  literals, \<open>.\<close> alone is not). What comes after the prefix is ignored; without such a
  prefix the result is NaN.\<close>

definition parseFloat :: "string \<Rightarrow> number" where
  "parseFloat s =
     (let (neg, r) = stripSign (trimStart s)
      in if startsWith r ''Infinity'' then Infinity neg
         else
           (let ip = takeWhile isDigit r; r1 = dropWhile isDigit r
            in case r1 of
                 c # cs \<Rightarrow>
                   if c = CHR ''.'' then
                     (let fp = takeWhile isDigit cs; r2 = dropWhile isDigit cs
                      in if ip = [] \<and> fp = [] then NaN
                         else decimalToDouble neg (digitsValue (ip @ fp))
                                (exponentPart r2 - int (length fp)))
                   else if ip = [] then NaN
                   else decimalToDouble neg (digitsValue ip) (exponentPart r1)
               | [] \<Rightarrow>
                   if ip = [] then NaN else toDouble neg (digitsValue ip) 1))"

section \<open>send.ts: text-to-argument inference\<close>

datatype error = Error (message: string)

text \<open>\<open>type ParsedValue = string | number\<close>: the result carries no OSC type tag.\<close>

datatype ParsedValue = PString string | PNumber number

text \<open>The test \<open>/^"[^"]+"$/\<close>: a double quote, one or more characters none of which
  is a double quote, a double quote, and nothing else.\<close>

definition quotedRe :: "string \<Rightarrow> bool" where
  "quotedRe s \<longleftrightarrow>
     (case s of
        [] \<Rightarrow> False
      | c # rest \<Rightarrow>
          c = CHR 0x22 \<and> rest \<noteq> [] \<and> last rest = CHR 0x22 \<and>
          butlast rest \<noteq> [] \<and> CHR 0x22 \<notin> set (butlast rest))"

text \<open>\<open>parseInputValue(value: string | undefined)\<close>; \<open>None\<close> is \<open>undefined\<close>.\<close>

definition parseInputValue :: "string option \<Rightarrow> error + ParsedValue" where
  "parseInputValue v =
     (case v of
        None \<Rightarrow> Inl (Error ''Value cannot be empty'')
      | Some value \<Rightarrow>
          if value = [] \<or> trim value = [] then Inl (Error ''Value cannot be empty'')
          else if quotedRe value then
            Inr (PString (substring value 1 (length value - 1)))
          else if CHR ''.'' \<in> set value then
            (let floatValue = parseFloat value
             in if isNaN floatValue then Inl (Error (''Invalid number: '' @ value))
                else Inr (PNumber floatValue))
          else
            (let intValue = parseInt10 value
             in if isNaN intValue then Inl (Error (''Invalid integer: '' @ value))
                else Inr (PNumber intValue)))"


section \<open>Console output and numbers in text\<close>

text \<open>One entry per call of \<open>console.log\<close>, \<open>console.warn\<close> and \<open>console.error\<close>, with
  the text passed (the colour escapes added by the \<open>colors\<close> package are left out);
  \<open>ErrorObj\<close> is \<open>console.error(err)\<close> with the error object itself. \<open>Banner\<close> stands
  for a start-up banner, whose text has characters above 255.\<close>

datatype console_call =
    Log string
  | Warn string
  | ErrorText string
  | ErrorObj error
  | Banner

text \<open>A whole number in a template string, in decimal; \<open>digitChar\<close> is only applied
  to a digit below 10.\<close>

definition digitChar :: "nat \<Rightarrow> char" where
  "digitChar d = ''0123456789'' ! d"

fun showNat :: "nat \<Rightarrow> string" where
  "showNat n =
     (if n < 10 then [digitChar n]
      else showNat (n div 10) @ [digitChar (n mod 10)])"

declare showNat.simps [simp del]

definition showInt :: "int \<Rightarrow> string" where
  "showInt i = (if i < 0 then CHR ''-'' # showNat (nat (- i)) else showNat (nat i))"

section \<open>send.ts: the send loop\<close>

type_synonym byte = "8 word"

text \<open>
  What the loop takes from outside: \<open>osc.toBuffer\<close> of the osc-min package, called with
  the address and the argument list and returning the packet or throwing, and the
  text of a number in \<open>String(value)\<close>.
\<close>

record send_env =
  toBuffer :: "string \<Rightarrow> ParsedValue list \<Rightarrow> error + byte list"
  numberToString :: "number \<Rightarrow> string"

text \<open>The state the loop changes: the console, the datagrams handed to
  \<open>socket.send\<close> (message, port, address), whether \<open>socket.close()\<close> was called, and the
  code of \<open>process.exit\<close> once it was called.\<close>

record send_state =
  console :: "console_call list"
  sent :: "(byte list \<times> int \<times> string) list"
  closed :: bool
  exited :: "int option"

text \<open>One turn of the loop is driven by what \<open>inquirer.prompt\<close> gives (a line, or a
  rejection such as the operator closing the prompt) and by what the network answers
  should \<open>socket.send\<close> be called in this turn (\<open>None\<close>: the callback gets no error).\<close>

datatype prompt_result = Answer string | PromptRejects error

definition print :: "console_call \<Rightarrow> send_state \<Rightarrow> send_state" where
  "print c st = st\<lparr>console := console st @ [c]\<rparr>"

definition stringOfValue :: "send_env \<Rightarrow> ParsedValue \<Rightarrow> string" where
  "stringOfValue env v = (case v of PString s \<Rightarrow> s | PNumber n \<Rightarrow> numberToString env n)"

text \<open>\<open>Number.isNaN(value as number)\<close> is false for a string.\<close>

definition valueIsNaN :: "ParsedValue \<Rightarrow> bool" where
  "valueIsNaN v = (case v of PString s \<Rightarrow> False | PNumber n \<Rightarrow> isNaN n)"

text \<open>\<open>sendMessage\<close>: the port is checked, then the datagram is handed to
  \<open>socket.send\<close>; the promise is rejected with the callback's error.\<close>

definition sendMessage ::
  "error option \<Rightarrow> byte list \<Rightarrow> int \<Rightarrow> string \<Rightarrow> send_state \<Rightarrow> send_state \<times> error option" where
  "sendMessage outcome msg port addr st =
     (if port < 1 \<or> port > 65535
      then (st, Some (Error (''Invalid port number: '' @ showInt port)))
      else (st\<lparr>sent := sent st @ [(msg, port, addr)]\<rparr>, outcome))"

text \<open>The \<open>catch\<close> of the loop body.\<close>

definition loopCatch :: "error \<Rightarrow> send_state \<Rightarrow> send_state" where
  "loopCatch err st =
     (if includesStr (message err) ''User force closed''
      then (print (Log (CHR 0x0A # ''Goodbye!'')) st)\<lparr>exited := Some 0\<rparr>
      else print (ErrorText (''Error sending message: '' @ message err)) st)"

definition isQuit :: "string \<Rightarrow> bool" where
  "isQuit trimmedInput \<longleftrightarrow>
     toLowerCase trimmedInput = ''q'' \<or> toLowerCase trimmedInput = ''quit'' \<or>
     toLowerCase trimmedInput = ''exit''"

text \<open>The body of \<open>while (true)\<close>. \<open>split\<close> never returns the empty array; reading
  \<open>parts[0]\<close> of one would be a TypeError, caught like any other.\<close>

definition sendTurn ::
  "send_env \<Rightarrow> int \<Rightarrow> string \<Rightarrow> send_state \<Rightarrow> prompt_result \<times> error option \<Rightarrow> send_state" where
  "sendTurn env port receiverIp st ev =
     (case fst ev of
        PromptRejects err \<Rightarrow> loopCatch err st
      | Answer input \<Rightarrow>
          (let trimmedInput = trim input
           in if isQuit trimmedInput
              then (print (Log (CHR 0x0A # ''Goodbye!'')) st)\<lparr>closed := True, exited := Some 0\<rparr>
              else
                (case split_ws trimmedInput of
                   [] \<Rightarrow> loopCatch (Error ''Cannot read properties of undefined (reading 'startsWith')'') st
                 | oscAddress # rest \<Rightarrow>
                     if \<not> startsWith oscAddress ''/''
                     then print (ErrorText ''OSC address must start with /'') st
                     else
                       (let rawValue = join '' '' rest
                        in if rawValue = []
                           then print (ErrorText ''Please provide a value'') st
                           else
                             (case parseInputValue (Some rawValue) of
                                Inl err \<Rightarrow>
                                  print (ErrorText (''Error parsing value: '' @ message err)) st
                              | Inr v \<Rightarrow>
                                  (case toBuffer env oscAddress (if valueIsNaN v then [] else [v]) of
                                     Inl err \<Rightarrow> loopCatch err st
                                   | Inr msg \<Rightarrow>
                                       (case sendMessage (snd ev) msg port receiverIp st of
                                          (st', Some err) \<Rightarrow> loopCatch err st'
                                        | (st', None) \<Rightarrow>
                                            print (Log (''Sent: '' @ oscAddress @ '' = '' @
                                                        stringOfValue env v)) st')))))))"

text \<open>\<open>while (true)\<close> over the turns the environment offers; \<open>process.exit\<close> ends it,
  and when the turns run out the loop is waiting at the prompt.\<close>

fun sendLoop ::
  "send_env \<Rightarrow> int \<Rightarrow> string \<Rightarrow> send_state \<Rightarrow> (prompt_result \<times> error option) list \<Rightarrow> send_state" where
  "sendLoop env port receiverIp st [] = st"
| "sendLoop env port receiverIp st (ev # evs) =
     (let st' = sendTurn env port receiverIp st ev
      in if exited st' = None then sendLoop env port receiverIp st' evs else st')"

text \<open>\<open>send\<close>: an invalid port is reported and thrown before a socket exists;
  otherwise the banner is printed and the loop runs. \<open>receiverIp\<close> is the address given
  or the operator's answer to the address prompt. The second component is the error
  the function throws.\<close>

definition send ::
  "send_env \<Rightarrow> int \<Rightarrow> string \<Rightarrow> send_state \<Rightarrow> (prompt_result \<times> error option) list
     \<Rightarrow> send_state \<times> error option" where
  "send env port receiverIp st evs =
     (if port < 1 \<or> port > 65535
      then (let err = Error (''Invalid port number: '' @ showInt port @
                             ''. Port must be between 1 and 65535.'')
            in (print (ErrorText (''Failed to start send mode: '' @ message err)) st, Some err))
      else (sendLoop env port receiverIp (print Banner st) evs, None))"

section \<open>createSocket.ts and monitor.ts: the monitor\<close>

text \<open>What \<open>osc.fromBuffer\<close> returns, as the handler reads it: the address may be
  missing (a bundle has none), \<open>args\<close> may be missing, an argument may be \<open>null\<close>, and
  its \<open>type\<close> and \<open>value\<close> may be missing or \<open>null\<close>. \<open>'v\<close> is the type of the values
  that are there.\<close>

record 'v OscArgument =
  argType :: "string option"
  argValue :: "'v option"

record 'v OscMessage =
  address :: "string option"
  args :: "'v OscArgument option list option"

text \<open>What the monitor takes from outside: \<open>osc.fromBuffer\<close>, returning the message
  or throwing, and \<open>String(arg.value)\<close> on a value that is there.\<close>

record 'v monitor_env =
  fromBuffer :: "byte list \<Rightarrow> error + 'v OscMessage"
  valueToString :: "'v \<Rightarrow> string"

definition argValues :: "('v \<Rightarrow> string) \<Rightarrow> 'v OscArgument option list \<Rightarrow> string list" where
  "argValues str as =
     map (\<lambda>arg. case arg of
                  None \<Rightarrow> ''null''
                | Some a \<Rightarrow> (case argValue a of None \<Rightarrow> ''null'' | Some v \<Rightarrow> str v)) as"

definition argTypes :: "'v OscArgument option list \<Rightarrow> string list" where
  "argTypes as =
     map (\<lambda>arg. case arg of
                  None \<Rightarrow> ''null''
                | Some a \<Rightarrow>
                    (case argType a of
                       None \<Rightarrow> ''unknown''
                     | Some t \<Rightarrow> if t = [] then ''unknown'' else t)) as"

text \<open>The \<open>'message'\<close> handler of monitor.ts: what one datagram adds to the console.\<close>

definition onMessage :: "'v monitor_env \<Rightarrow> int \<Rightarrow> byte list \<Rightarrow> console_call list" where
  "onMessage env port buffer =
     (case fromBuffer env buffer of
        Inl err \<Rightarrow> [ErrorText ''Error parsing OSC message:'', ErrorText (message err)]
      | Inr m \<Rightarrow>
          (case address m of
             None \<Rightarrow> [Warn ''Received OSC message without address'']
           | Some a \<Rightarrow>
               if a = [] then [Warn ''Received OSC message without address'']
               else
                 (case args m of
                    None \<Rightarrow>
                      [Log (''['' @ showInt port @ ''] '' @ padEnd a 30 @ '' (null)'')]
                  | Some as \<Rightarrow>
                      if length as > 0
                      then [Log (''['' @ showInt port @ ''] '' @ padEnd a 30 @ '' '' @
                                 join '', '' (argValues (valueToString env) as) @
                                 '' ('' @ join '', '' (argTypes as) @ '')'')]
                      else [Log (''['' @ showInt port @ ''] '' @ padEnd a 30 @ '' (null)'')])))"

text \<open>The same handler in the revision of monitor.ts that logs to a file: the line
  starts with the time stamp, the sender and the size, and a plain copy goes to the
  log stream when there is one. The result is the console entries and the lines
  written to the stream. \<open>stamp\<close> is the formatted \<open>new Date()\<close>.\<close>

record RemoteInfo =
  rAddress :: string
  rPort :: int

definition onMessageLogged ::
  "'v monitor_env \<Rightarrow> bool \<Rightarrow> string \<Rightarrow> byte list \<Rightarrow> RemoteInfo
     \<Rightarrow> console_call list \<times> string list" where
  "onMessageLogged env logStream stamp buffer rinfo =
     (case fromBuffer env buffer of
        Inl err \<Rightarrow> ([ErrorText ''Error parsing OSC message:'', ErrorText (message err)], [])
      | Inr m \<Rightarrow>
          (case address m of
             None \<Rightarrow> ([Warn ''Received OSC message without address''], [])
           | Some a \<Rightarrow>
               if a = [] then ([Warn ''Received OSC message without address''], [])
               else
                 (let head = stamp @ '' '' @ rAddress rinfo @ '':'' @ showInt (rPort rinfo) @
                             '' '' @ showNat (length buffer) @ ''B '' @ padEnd a 30;
                      plainLogLine =
                        (case args m of
                           None \<Rightarrow> head @ '' (null)''
                         | Some as \<Rightarrow>
                             if length as > 0
                             then head @ '' '' @ join '', '' (argValues (valueToString env) as) @
                                  '' ('' @ join '', '' (argTypes as) @ '')''
                             else head @ '' (null)'')
                  in ([Log plainLogLine],
                      if logStream then [plainLogLine @ [CHR 0x0A]] else []))))"

subsection \<open>The socket and the life of the monitor\<close>

text \<open>
  \<open>createUdpSocket(port, address)\<close> registers its \<open>'error'\<close> handler, checks the port,
  registers a \<open>'listening'\<close> handler that resolves the promise, and calls \<open>bind\<close>.
  \<open>monitor\<close> awaits that promise, then registers its \<open>'message'\<close> and \<open>'error'\<close> handlers,
  prints the banner and returns. The handlers of \<open>createUdpSocket\<close> stay registered,
  and an event runs the handlers in the order they were registered.

  \<open>Binding\<close>: \<open>bind\<close> was called and the promise is pending. \<open>Listening\<close>: the promise
  is resolved and \<open>monitor\<close> has returned. \<open>Stopped\<close>: \<open>udp.close()\<close> was called; a closed
  socket emits no further event.
\<close>

datatype phase = Binding | Listening | Stopped

text \<open>What the caller of \<open>monitor\<close> has seen: nothing yet, a normal return, or the
  error thrown.\<close>

datatype outcome = Awaiting | Returned | Threw error

record monitor_state =
  mconsole :: "console_call list"
  mphase :: phase
  caller :: outcome

datatype socket_event =
    ListeningEv
  | ErrorEv error "string option"
  | MessageEv "byte list"

definition mprint :: "console_call list \<Rightarrow> monitor_state \<Rightarrow> monitor_state" where
  "mprint cs st = st\<lparr>mconsole := mconsole st @ cs\<rparr>"

text \<open>The \<open>'error'\<close> handler of createSocket.ts: it prints, closes the socket and
  rejects the promise; \<open>reject\<close> on a promise that is already resolved does nothing.
  The second argument is \<open>err.stack\<close>.\<close>

definition socketOnError :: "error \<Rightarrow> string option \<Rightarrow> monitor_state \<Rightarrow> monitor_state" where
  "socketOnError err stack st =
     (mprint ([ErrorText ''Socket error:'', ErrorObj err] @
              (case stack of None \<Rightarrow> [] | Some s \<Rightarrow> if s = [] then [] else [ErrorText s])) st)
       \<lparr>mphase := Stopped\<rparr>"

text \<open>The \<open>catch\<close> of \<open>monitor\<close>: the failure to start is printed and thrown on.\<close>

definition monitorCatch :: "error \<Rightarrow> monitor_state \<Rightarrow> monitor_state" where
  "monitorCatch err st =
     (mprint [ErrorText (''Failed to start monitor: '' @ message err)] st)\<lparr>caller := Threw err\<rparr>"

text \<open>The \<open>'error'\<close> handler of monitor.ts.\<close>

definition monitorOnError :: "error \<Rightarrow> monitor_state \<Rightarrow> monitor_state" where
  "monitorOnError err st =
     mprint [ErrorText ''Socket error in monitor:'', ErrorText (message err)] st"

text \<open>\<open>monitor\<close> up to the \<open>await\<close>: the port is checked (twice, the second time in
  \<open>createUdpSocket\<close> with the same bounds), then \<open>bind\<close> is called; \<open>bindThrows\<close> is the
  error \<open>bind\<close> throws at once, if any.\<close>

definition monitorStart :: "int \<Rightarrow> error option \<Rightarrow> monitor_state" where
  "monitorStart port bindThrows =
     (let st0 = \<lparr>mconsole = [], mphase = Binding, caller = Awaiting\<rparr>
      in if port < 1 \<or> port > 65535
         then monitorCatch (Error (''Invalid port number: '' @ showInt port @
                                   ''. Port must be between 1 and 65535.''))
                (st0\<lparr>mphase := Stopped\<rparr>)
         else (case bindThrows of
                 Some err \<Rightarrow> monitorCatch err (st0\<lparr>mphase := Stopped\<rparr>)
               | None \<Rightarrow> st0))"

text \<open>One socket event.\<close>

definition monitorStep :: "'v monitor_env \<Rightarrow> int \<Rightarrow> monitor_state \<Rightarrow> socket_event \<Rightarrow> monitor_state" where
  "monitorStep env port st ev =
     (case mphase st of
        Stopped \<Rightarrow> st
      | Binding \<Rightarrow>
          (case ev of
             ListeningEv \<Rightarrow> (mprint [Banner, Banner] st)\<lparr>mphase := Listening, caller := Returned\<rparr>
           | ErrorEv err stack \<Rightarrow> monitorCatch err (socketOnError err stack st)
           | MessageEv buffer \<Rightarrow> st)
      | Listening \<Rightarrow>
          (case ev of
             ListeningEv \<Rightarrow> mprint [Banner] st
           | ErrorEv err stack \<Rightarrow> monitorOnError err (socketOnError err stack st)
           | MessageEv buffer \<Rightarrow> mprint (onMessage env port buffer) st))"

fun monitorRun :: "'v monitor_env \<Rightarrow> int \<Rightarrow> monitor_state \<Rightarrow> socket_event list \<Rightarrow> monitor_state" where
  "monitorRun env port st [] = st"
| "monitorRun env port st (ev # evs) = monitorRun env port (monitorStep env port st ev) evs"


section \<open>The codec of the specification\<close>

text \<open>
  The sources call \<open>osc.toBuffer\<close> and \<open>osc.fromBuffer\<close> of the osc-min package and hold
  no codec of their own. The definitions of this section follow section 4.1 of the
  specification instead.
\<close>

text \<open>Modelled from the spec: the \<open>Argument\<close> and \<open>Message\<close> of section 3, which the
  sources do not declare. \<open>Float32\<close> holds the 32 bits of the IEEE-754 single.\<close>

datatype Argument =
    Int32 "32 word"
  | Float32 "32 word"
  | String string
  | Blob "byte list"
  | Unknown char

record Message =
  msgAddress :: string
  msgArgs :: "Argument list"

datatype DecodeError =
    Truncated
  | MissingTerminator
  | Misaligned
  | BadAddress
  | BadTypeTags
  | CountMismatch

text \<open>Modelled from the spec: the characters of a string are single bytes on the wire.\<close>

definition byteOfChar :: "char \<Rightarrow> byte" where
  "byteOfChar c = of_nat (of_char c)"

definition charOfByte :: "byte \<Rightarrow> char" where
  "charOfByte b = char_of (unat b)"

text \<open>Modelled from the spec: 4 bytes big-endian, for \<open>Int32\<close>, \<open>Float32\<close> and the length
  prefix of a \<open>Blob\<close>.\<close>

definition be32 :: "32 word \<Rightarrow> byte list" where
  "be32 w = [ucast (drop_bit 24 w), ucast (drop_bit 16 w), ucast (drop_bit 8 w), ucast w]"

definition fromBe32 :: "byte list \<Rightarrow> 32 word" where
  "fromBe32 bs = foldl (\<lambda>acc b. push_bit 8 acc OR ucast b) 0 bs"

text \<open>Modelled from the spec: the number of NUL bytes that bring a length to the next
  multiple of 4.\<close>

definition padding :: "nat \<Rightarrow> nat" where
  "padding n = (4 - n mod 4) mod 4"

text \<open>Modelled from the spec: a string on the wire is its bytes, a NUL terminator,
  and NUL bytes until the length, terminator included, is a multiple of 4.\<close>

definition encodeString :: "string \<Rightarrow> byte list" where
  "encodeString s = map byteOfChar s @ 0 # replicate (padding (length s + 1)) 0"

text \<open>Modelled from the spec: the tag character of each kind of argument.\<close>

fun tagOf :: "Argument \<Rightarrow> char" where
  "tagOf (Int32 w) = CHR ''i''"
| "tagOf (Float32 w) = CHR ''f''"
| "tagOf (String s) = CHR ''s''"
| "tagOf (Blob bs) = CHR ''b''"
| "tagOf (Unknown t) = t"

text \<open>Modelled from the spec: the value of one argument on the wire. The specification
  names no bytes for an argument of unknown tag; none are written.\<close>

fun encodeArg :: "Argument \<Rightarrow> byte list" where
  "encodeArg (Int32 w) = be32 w"
| "encodeArg (Float32 w) = be32 w"
| "encodeArg (String s) = encodeString s"
| "encodeArg (Blob bs) = be32 (of_nat (length bs)) @ bs @ replicate (padding (length bs)) 0"
| "encodeArg (Unknown t) = []"

text \<open>Modelled from the spec: \<open>encode\<close> of section 4.1: the address, the type-tag
  string (a comma and one tag per argument), and the values in order.\<close>

definition encode :: "Message \<Rightarrow> byte list" where
  "encode m =
     encodeString (msgAddress m) @
     encodeString (CHR '','' # map tagOf (msgArgs m)) @
     concat (map encodeArg (msgArgs m))"

text \<open>Modelled from the spec: reading a padded string off the front of a buffer. A
  buffer without a NUL is rejected, and so is one that ends before the padding does.\<close>

definition decodeString :: "byte list \<Rightarrow> DecodeError + string \<times> byte list" where
  "decodeString bs =
     (let body = takeWhile (\<lambda>b. b \<noteq> 0) bs
      in if length body = length bs then Inl MissingTerminator
         else
           (let n = length body + 1 + padding (length body + 1)
            in if length bs < n then Inl Misaligned
               else Inr (map charOfByte body, drop n bs)))"

text \<open>Modelled from the spec: reading one argument for a tag. An unrecognized tag
  gives \<open>Unknown\<close> and takes no bytes.\<close>

definition decodeArg :: "char \<Rightarrow> byte list \<Rightarrow> DecodeError + Argument \<times> byte list" where
  "decodeArg t bs =
     (if t = CHR ''i'' then
        (if length bs < 4 then Inl Truncated else Inr (Int32 (fromBe32 (take 4 bs)), drop 4 bs))
      else if t = CHR ''f'' then
        (if length bs < 4 then Inl Truncated else Inr (Float32 (fromBe32 (take 4 bs)), drop 4 bs))
      else if t = CHR ''s'' then
        (case decodeString bs of
           Inl e \<Rightarrow> Inl e
         | Inr (s, rest) \<Rightarrow> Inr (String s, rest))
      else if t = CHR ''b'' then
        (if length bs < 4 then Inl Truncated
         else
           (let n = unat (fromBe32 (take 4 bs)); rest = drop 4 bs
            in if length rest < n + padding n then Inl Truncated
               else Inr (Blob (take n rest), drop (n + padding n) rest)))
      else Inr (Unknown t, bs))"

text \<open>Modelled from the spec: one argument per tag, in order.\<close>

fun decodeArgs :: "char list \<Rightarrow> byte list \<Rightarrow> DecodeError + Argument list \<times> byte list" where
  "decodeArgs [] bs = Inr ([], bs)"
| "decodeArgs (t # ts) bs =
     (case decodeArg t bs of
        Inl e \<Rightarrow> Inl e
      | Inr (a, rest) \<Rightarrow>
          (case decodeArgs ts rest of
             Inl e \<Rightarrow> Inl e
           | Inr (as, rest') \<Rightarrow> Inr (a # as, rest')))"

text \<open>Modelled from the spec: \<open>decode\<close> of section 4.1. The leading string must start
  with \<open>/\<close>, the type-tag string with a comma, and the arguments must use up the
  buffer.\<close>

definition decode :: "byte list \<Rightarrow> DecodeError + Message" where
  "decode bs =
     (case decodeString bs of
        Inl e \<Rightarrow> Inl e
      | Inr (addr, r1) \<Rightarrow>
          if \<not> startsWith addr ''/'' then Inl BadAddress
          else
            (case decodeString r1 of
               Inl e \<Rightarrow> Inl e
             | Inr (tags, r2) \<Rightarrow>
                 (case tags of
                    [] \<Rightarrow> Inl BadTypeTags
                  | c # ts \<Rightarrow>
                      if c \<noteq> CHR '','' then Inl BadTypeTags
                      else
                        (case decodeArgs ts r2 of
                           Inl e \<Rightarrow> Inl e
                         | Inr (as, r3) \<Rightarrow>
                             if r3 = [] then Inr \<lparr>msgAddress = addr, msgArgs = as\<rparr>
                             else Inl CountMismatch))))"

text \<open>Modelled from the spec: the invariants of section 3 on a message to encode: the address is not empty,
  starts with \<open>/\<close> and has no NUL; a string has no NUL; the length of a blob fits its
  4-byte prefix; every argument is one of the four kinds.\<close>

fun validArg :: "Argument \<Rightarrow> bool" where
  "validArg (Int32 w) = True"
| "validArg (Float32 w) = True"
| "validArg (String s) = (CHR 0x00 \<notin> set s)"
| "validArg (Blob bs) = (length bs < 2 ^ 32)"
| "validArg (Unknown t) = False"

definition validMessage :: "Message \<Rightarrow> bool" where
  "validMessage m \<longleftrightarrow>
     msgAddress m \<noteq> [] \<and> startsWith (msgAddress m) ''/'' \<and> CHR 0x00 \<notin> set (msgAddress m) \<and>
     list_all validArg (msgArgs m)"

section \<open>Command lines and sample environments\<close>




text \<open>Environments for the examples: an encoder that returns the bytes of the address
  as the packet, and a decoder that throws on the empty buffer and returns a message
  with the address \<open>/ping\<close> and no arguments otherwise.\<close>

definition sampleSendEnv :: send_env where
  "sampleSendEnv =
     \<lparr>toBuffer = (\<lambda>a vs. Inr (map (\<lambda>c. of_nat (of_char c)) a)),
      numberToString = (\<lambda>n. ''<number>'')\<rparr>"

definition sampleMonitorEnv :: "string monitor_env" where
  "sampleMonitorEnv =
     \<lparr>fromBuffer = (\<lambda>b. if b = [] then Inl (Error ''Offset is outside the bounds of the DataView'')
                         else Inr \<lparr>address = Some ''/ping'', args = None\<rparr>),
      valueToString = (\<lambda>v. v)\<rparr>"

definition emptySendState :: send_state where
  "emptySendState = \<lparr>console = [], sent = [], closed = False, exited = None\<rparr>"

text \<open>\<open>osc.fromBuffer\<close> on the buffers of the examples, as the osc-min package answers
  them. \<open>unknownTagBuffer\<close> is the message \<open>/a\<close> with the type tags \<open>,x\<close>: the package
  does not know the tag \<open>x\<close> and throws. \<open>nullTagBuffer\<close> is the message \<open>/a\<close> with the
  type tags \<open>,iN\<close> and the integer 1: the tag \<open>N\<close> has no bytes, and the package gives
  it the type \<open>null\<close> and the value \<open>null\<close>. On the empty buffer it throws.\<close>

definition unknownTagBuffer :: "byte list" where
  "unknownTagBuffer = [0x2F, 0x61, 0, 0, 0x2C, 0x78, 0, 0]"

definition nullTagBuffer :: "byte list" where
  "nullTagBuffer = [0x2F, 0x61, 0, 0, 0x2C, 0x69, 0x4E, 0, 0, 0, 0, 1]"

definition sampleTagEnv :: "string monitor_env" where
  "sampleTagEnv =
     \<lparr>fromBuffer =
        (\<lambda>b. if b = unknownTagBuffer
              then Inl (Error ''I don't understand the argument code x'')
              else if b = nullTagBuffer
              then Inr \<lparr>address = Some ''/a'',
                        args = Some [Some \<lparr>argType = Some ''integer'', argValue = Some ''1''\<rparr>,
                                     Some \<lparr>argType = Some ''null'', argValue = None\<rparr>]\<rparr>
              else Inl (Error ''Offset is outside the bounds of the DataView'')),
      valueToString = (\<lambda>v. v)\<rparr>"

definition listeningState :: monitor_state where
  "listeningState = \<lparr>mconsole = [], mphase = Listening, caller = Returned\<rparr>"

section \<open>Properties of the inference\<close>

lemma bitLength_pos: "0 < n \<Longrightarrow> 0 < bitLength n"
  by (subst bitLength.simps) simp

lemma bitLength_upper: "n < 2 ^ bitLength n"
proof (induction n rule: bitLength.induct)
  case (1 n)
  show ?case
  proof (cases "n = 0")
    case True
    then show ?thesis by simp
  next
    case False
    with 1 have "n div 2 < 2 ^ bitLength (n div 2)" by simp
    then have "n < 2 * 2 ^ bitLength (n div 2)" by linarith
    with False show ?thesis by (subst bitLength.simps) simp
  qed
qed

lemma bitLength_lower: "0 < n \<Longrightarrow> 2 ^ (bitLength n - 1) \<le> n"
proof (induction n rule: bitLength.induct)
  case (1 n)
  then have n: "n \<noteq> 0" by simp
  show ?case
  proof (cases "n div 2 = 0")
    case True
    then have "bitLength (n div 2) = 0" by (simp add: bitLength.simps)
    with n have "bitLength n = 1" by (subst bitLength.simps) simp
    with 1 show ?thesis by simp
  next
    case False
    with 1 n have ih: "2 ^ (bitLength (n div 2) - 1) \<le> n div 2" by simp
    have pos: "0 < bitLength (n div 2)" using False by (simp add: bitLength_pos)
    have "bitLength n = Suc (bitLength (n div 2))" using n by (subst bitLength.simps) simp
    then have "(2::nat) ^ (bitLength n - 1) = 2 * 2 ^ (bitLength (n div 2) - 1)"
      using pos by (cases "bitLength (n div 2)") simp_all
    also have "\<dots> \<le> 2 * (n div 2)" using ih by simp
    also have "\<dots> \<le> n" by simp
    finally show ?thesis .
  qed
qed

lemma bitLength_1: "bitLength 1 = 1" "bitLength (Suc 0) = Suc 0"
  by (simp_all add: bitLength.simps)

lemma roundHalfEven_1: "roundHalfEven n 1 = n" "roundHalfEven n (Suc 0) = n"
  by (simp_all add: roundHalfEven_def)

lemma roundHalfEven_ge: "n div d \<le> roundHalfEven n d"
  by (simp add: roundHalfEven_def Let_def)

lemma toDouble_not_NaN: "toDouble neg a b \<noteq> NaN"
  by (simp add: toDouble_def Let_def)

lemma toDouble_exact:
  assumes "a < 2 ^ 53"
  shows "toDouble neg a 1 = Num neg (of_nat a)"
proof (cases "a = 0")
  case True
  then show ?thesis by (simp add: toDouble_def)
next
  case False
  then have pos: "0 < a" by simp
  define l where "l = bitLength a"
  have l1: "1 \<le> l" using bitLength_pos [OF pos] by (simp add: l_def)
  have low: "2 ^ (l - 1) \<le> a" using bitLength_lower [OF pos] by (simp add: l_def)
  have one: "(1::nat) < 2" by simp
  have "(2::nat) ^ (l - 1) < 2 ^ 53" using low assms by linarith
  from power_less_imp_less_exp [OF one this] have l53: "l \<le> 53" by linarith
  have e0: "int (bitLength a) - int (bitLength 1) = int (l - 1)"
    using l1 by (simp add: bitLength_1 l_def)
  have p: "pow2le (int (l - 1)) a 1" using low by (simp add: pow2le_def)
  have small: "\<not> 2 ^ 1024 \<le> a"
  proof -
    have "(2::nat) ^ 53 \<le> 2 ^ 1024" by (rule power_increasing) simp_all
    with assms show ?thesis by linarith
  qed
  show ?thesis
  proof (cases "l = 53")
    case True
    then have sh: "max (int (l - 1)) (- 1022) - 52 = 0" by simp
    have "toDouble neg a 1 =
            (let m = roundHalfEven a (1 * 2 ^ nat 0)
             in if 2 ^ 1024 \<le> m * 2 ^ nat 0 then Infinity neg
                else Num neg (of_nat (m * 2 ^ nat 0)))"
      using False p by (simp only: toDouble_def Let_def e0 sh if_True if_False order_refl)
    also have "\<dots> = Num neg (of_nat a)"
      using small by (simp add: roundHalfEven_1 Let_def del: power_numeral)
    finally show ?thesis .
  next
    case ne: False
    define k where "k = 53 - l"
    have sh: "max (int (l - 1)) (- 1022) - 52 = - int k" using l1 l53 by (simp add: k_def)
    have neg_sh: "\<not> 0 \<le> - int k" using ne l53 by (simp add: k_def)
    have "toDouble neg a 1 =
            Num neg (of_nat (roundHalfEven (a * 2 ^ nat (- (- int k))) 1) / 2 ^ nat (- (- int k)))"
      using False p neg_sh by (simp only: toDouble_def Let_def e0 sh if_True if_False)
    also have "\<dots> = Num neg (of_nat a)"
      by (simp add: roundHalfEven_1)
    finally show ?thesis .
  qed
qed

lemma toDouble_overflow:
  assumes "2 ^ 1024 \<le> a"
  shows "toDouble neg a 1 = Infinity neg"
proof -
  have "(0::nat) < 2 ^ 1024" by (rule zero_less_power) simp
  with assms have pos: "0 < a" by linarith
  then have nz: "a \<noteq> 0" by simp
  define l where "l = bitLength a"
  have up: "a < 2 ^ l" using bitLength_upper by (simp add: l_def)
  have low: "2 ^ (l - 1) \<le> a" using bitLength_lower [OF pos] by (simp add: l_def)
  have one: "(1::nat) < 2" by simp
  have "(2::nat) ^ 1024 < 2 ^ l" using assms up by linarith
  from power_less_imp_less_exp [OF one this] have l1025: "1025 \<le> l" by linarith
  have e0: "int (bitLength a) - int (bitLength 1) = int (l - 1)"
    using l1025 by (simp add: bitLength_1 l_def)
  have p: "pow2le (int (l - 1)) a 1" using low by (simp add: pow2le_def)
  define s where "s = l - 53"
  have sh: "max (int (l - 1)) (- 1022) - 52 = int s" using l1025 by (simp add: s_def)
  have "l - 1 = 52 + s" using l1025 by (simp add: s_def)
  then have split: "(2::nat) ^ (l - 1) = 2 ^ 52 * 2 ^ s" by (simp only: power_add)
  then have "2 ^ 52 * 2 ^ s \<le> a" using low by (simp only:)
  then have "2 ^ 52 \<le> a div 2 ^ s"
    by (simp only: less_eq_div_iff_mult_less_eq zero_less_power zero_less_numeral)
  then have m: "2 ^ 52 \<le> roundHalfEven a (2 ^ s)"
    using roundHalfEven_ge [of a "2 ^ s"] by (rule order_trans)
  have "(2::nat) ^ 1024 \<le> 2 ^ (l - 1)" by (rule power_increasing) (use l1025 in simp_all)
  also have "\<dots> = 2 ^ 52 * 2 ^ s" by (rule split)
  also have "\<dots> \<le> roundHalfEven a (2 ^ s) * 2 ^ s" using m by (rule mult_le_mono1)
  finally have big: "2 ^ 1024 \<le> roundHalfEven a (1 * 2 ^ nat (int s)) * 2 ^ nat (int s)"
    by (simp only: nat_int mult_1)
  have "toDouble neg a 1 =
          (let m = roundHalfEven a (1 * 2 ^ nat (int s))
           in if 2 ^ 1024 \<le> m * 2 ^ nat (int s) then Infinity neg
              else Num neg (of_nat (m * 2 ^ nat (int s))))"
    using nz p
    by (simp only: toDouble_def Let_def e0 sh if_True if_False of_nat_0_le_iff)
  also have "\<dots> = Infinity neg"
    using big by (simp only: Let_def if_True)
  finally show ?thesis .
qed

lemma isDigit_not_special:
  assumes "isDigit c"
  shows "\<not> isWhiteSpace c" "c \<noteq> CHR ''-''" "c \<noteq> CHR ''+''" "c \<noteq> CHR ''.''"
    "c \<noteq> CHR 0x22" "c \<noteq> CHR ''e''" "c \<noteq> CHR ''E''" "c \<noteq> CHR ''I''"
  using assms by (auto simp: isDigit_def isWhiteSpace_def)

lemma digits_hd:
  assumes "ds \<noteq> []" "\<forall>c\<in>set ds. isDigit c"
  obtains c cs where "ds = c # cs" "isDigit c"
  using assms by (cases ds) auto

lemma trim_keeps_nonblank_ends:
  assumes "s \<noteq> []" "\<not> isWhiteSpace (hd s)" "\<not> isWhiteSpace (last s)"
  shows "trim s = s"
proof -
  from assms obtain c cs where s: "s = c # cs" by (cases s) auto
  with assms have "trimStart s = s" by (simp add: trimStart_def)
  moreover have "dropWhile isWhiteSpace (rev s) = rev s"
    using assms by (cases "rev s") (auto simp: last_rev hd_rev)
  ultimately show ?thesis by (simp add: trim_def trimEnd_def)
qed

lemma takeWhile_all: "\<forall>c\<in>set ds. P c \<Longrightarrow> takeWhile P ds = ds"
  by (simp add: takeWhile_eq_all_conv)

lemma parseInt10_digits:
  assumes "ds \<noteq> []" "\<forall>c\<in>set ds. isDigit c"
  shows "parseInt10 ds = toDouble False (digitsValue ds) 1"
    and "parseInt10 (CHR ''-'' # ds) = toDouble True (digitsValue ds) 1"
proof -
  from assms obtain c cs where ds: "ds = c # cs" and c: "isDigit c" by (rule digits_hd)
  have tw: "takeWhile isDigit ds = ds" using assms(2) by (rule takeWhile_all)
  have "trimStart ds = ds" using ds c by (simp add: trimStart_def isDigit_not_special)
  moreover have "stripSign ds = (False, ds)" using ds c by (simp add: isDigit_not_special)
  ultimately show "parseInt10 ds = toDouble False (digitsValue ds) 1"
    by (simp add: parseInt10_def tw assms(1))
  have "trimStart (CHR ''-'' # ds) = CHR ''-'' # ds"
    by (simp add: trimStart_def isWhiteSpace_def)
  then show "parseInt10 (CHR ''-'' # ds) = toDouble True (digitsValue ds) 1"
    by (simp add: parseInt10_def tw assms(1))
qed

lemma digits_plain:
  assumes "ds \<noteq> []" "\<forall>c\<in>set ds. isDigit c"
  shows "trim ds \<noteq> []" "\<not> quotedRe ds" "CHR ''.'' \<notin> set ds"
proof -
  from assms obtain c cs where ds: "ds = c # cs" and c: "isDigit c" by (rule digits_hd)
  have "isDigit (last ds)" using assms by simp
  then have "trim ds = ds"
    using ds c by (intro trim_keeps_nonblank_ends) (simp_all add: isDigit_not_special)
  then show "trim ds \<noteq> []" using assms(1) by simp
  show "\<not> quotedRe ds" using ds c by (simp add: quotedRe_def isDigit_not_special)
  show "CHR ''.'' \<notin> set ds" using assms(2) isDigit_not_special(4) by blast
qed

lemma integer_token_inferred:
  assumes "ds \<noteq> []" "\<forall>c\<in>set ds. isDigit c"
  shows "parseInputValue (Some ds) = Inr (PNumber (toDouble False (digitsValue ds) 1))"
  using digits_plain [OF assms] assms(1)
  by (simp add: parseInputValue_def parseInt10_digits(1) [OF assms] isNaN_def toDouble_not_NaN)

lemma negative_token_inferred:
  assumes "ds \<noteq> []" "\<forall>c\<in>set ds. isDigit c"
  shows "parseInputValue (Some (CHR ''-'' # ds)) =
           Inr (PNumber (toDouble True (digitsValue ds) 1))"
proof -
  let ?v = "CHR ''-'' # ds"
  from assms obtain c cs where ds: "ds = c # cs" and c: "isDigit c" by (rule digits_hd)
  have "isDigit (last ds)" using assms by simp
  then have "\<not> isWhiteSpace (last ?v)" using assms(1) by (simp add: isDigit_not_special)
  then have "trim ?v = ?v"
    by (intro trim_keeps_nonblank_ends) (simp_all add: isWhiteSpace_def)
  moreover have "\<not> quotedRe ?v" by (simp add: quotedRe_def)
  moreover have "CHR ''.'' \<notin> set ?v" using digits_plain(3) [OF assms] by simp
  ultimately show ?thesis
    by (simp add: parseInputValue_def parseInt10_digits(2) [OF assms] isNaN_def toDouble_not_NaN)
qed

lemma exponent_token_inferred:
  assumes ip: "ip \<noteq> []" "\<forall>c\<in>set ip. isDigit c"
    and fp: "\<forall>c\<in>set fp. isDigit c"
    and ds: "ds \<noteq> []" "\<forall>c\<in>set ds. isDigit c"
  shows "parseInputValue (Some (ip @ CHR ''.'' # fp @ CHR ''e'' # ds)) =
           Inr (PNumber (decimalToDouble False (digitsValue (ip @ fp))
                                      (int (digitsValue ds) - int (length fp))))"
proof -
  let ?v = "ip @ CHR ''.'' # fp @ CHR ''e'' # ds"
  from ip obtain c cs where ipc: "ip = c # cs" and c: "isDigit c" by (rule digits_hd)
  from ds obtain d dr where dsc: "ds = d # dr" and d: "isDigit d" by (rule digits_hd)
  have "isDigit (last ds)" using ds by simp
  then have "\<not> isWhiteSpace (last ?v)" using ds(1) by (simp add: isDigit_not_special)
  then have trim: "trim ?v = ?v"
    using ipc c by (intro trim_keeps_nonblank_ends) (simp_all add: isDigit_not_special)
  have nq: "\<not> quotedRe ?v" using ipc c by (simp add: quotedRe_def isDigit_not_special)
  have ts: "trimStart ?v = ?v" using ipc c by (simp add: trimStart_def isDigit_not_special)
  have ss: "stripSign ?v = (False, ?v)" using ipc c by (simp add: isDigit_not_special)
  have ninf: "\<not> startsWith ?v ''Infinity''"
    using ipc c by (simp add: startsWith_def isDigit_not_special)
  have t1: "takeWhile isDigit ?v = ip"
    using ip(2) by (simp add: takeWhile_append isDigit_def)
  have d1: "dropWhile isDigit ?v = CHR ''.'' # fp @ CHR ''e'' # ds"
    using ip(2) by (simp add: dropWhile_append isDigit_def)
  have t2: "takeWhile isDigit (fp @ CHR ''e'' # ds) = fp"
    using fp by (simp add: takeWhile_append isDigit_def)
  have d2: "dropWhile isDigit (fp @ CHR ''e'' # ds) = CHR ''e'' # ds"
    using fp by (simp add: dropWhile_append isDigit_def)
  have ex: "exponentPart (CHR ''e'' # ds) = int (digitsValue ds)"
    using dsc d ds(2) by (simp add: exponentPart_def isDigit_not_special takeWhile_all)
  have "parseFloat ?v = decimalToDouble False (digitsValue (ip @ fp))
                                      (int (digitsValue ds) - int (length fp))"
    unfolding parseFloat_def ts ss by (simp add: ninf t1 d1 t2 d2 ex ip(1))
  moreover have "decimalToDouble False (digitsValue (ip @ fp))
                    (int (digitsValue ds) - int (length fp)) \<noteq> NaN"
    by (simp add: decimalToDouble_def toDouble_not_NaN)
  ultimately show ?thesis
    using trim nq by (simp add: parseInputValue_def isNaN_def)
qed

lemmas inference_defs =
  parseInputValue_def trim_def trimEnd_def trimStart_def isWhiteSpace_def quotedRe_def
  substring_def parseInt10_def parseFloat_def startsWith_def isDigit_def digitsValue_def
  exponentPart_def decimalToDouble_def toDouble_def roundHalfEven_def pow2le_def
  bitLength.simps Let_def isNaN_def

text \<open>
  C4, as stated: \<open>42\<close> is inferred as \<open>Int32(42)\<close>, and a token with a decimal point as a
  \<open>Float32\<close>. \<open>ParsedValue\<close> is \<open>string | number\<close>: the integer token \<open>42\<close> and the
  float token \<open>42.0\<close> are inferred as one and the same number, so the result does not
  say which of the two kinds it is.
\<close>

theorem integer_and_float_token_same_value:
  "parseInputValue (Some ''42'') = Inr (PNumber (Num False 42)) \<and>
   parseInputValue (Some ''42.0'') = Inr (PNumber (Num False 42))"
  by (simp add: inference_defs)

text \<open>
  C4, amended: \<open>42\<close> gives the number 42, \<open>3.14\<close> the number 3.14 (the double nearest
  to it), \<open>"red"\<close> the string \<open>red\<close>, the empty token an error, and \<open>1.0\<close> without quotes
  the number 1, not a string and the same value as for \<open>1\<close>.
\<close>

theorem inference_table_numbers:
  "parseInputValue (Some ''42'') = Inr (PNumber (Num False 42)) \<and>
   parseInputValue (Some ''3.14'') =
     Inr (PNumber (Num False (7070651414971679 / 2251799813685248))) \<and>
   parseInputValue (Some [CHR 0x22, CHR ''r'', CHR ''e'', CHR ''d'', CHR 0x22]) =
     Inr (PString ''red'') \<and>
   parseInputValue (Some []) = Inl (Error ''Value cannot be empty'') \<and>
   parseInputValue (Some ''1.0'') = Inr (PNumber (Num False 1)) \<and>
   parseInputValue (Some ''1'') = Inr (PNumber (Num False 1))"
  by (simp add: inference_defs)

text \<open>
  C5. A token without quotes that is not a numeric literal is not always an error:
  \<open>parseInt\<close> and \<open>parseFloat\<close> read the longest numeric prefix, so \<open>12abc\<close> gives 12,
  \<open>1.2.3\<close> gives 1.2 (the double nearest to it) and \<open>1e5\<close> gives 1, while the error
  branches of \<open>parseInputValue\<close> (\<open>Invalid integer\<close>, \<open>Invalid number\<close>) are reached only
  when no prefix is numeric.
\<close>

theorem partial_parse_accepted:
  "parseInputValue (Some ''12abc'') = Inr (PNumber (Num False 12)) \<and>
   parseInputValue (Some ''1.2.3'') =
     Inr (PNumber (Num False (5404319552844595 / 4503599627370496))) \<and>
   parseInputValue (Some ''1e5'') = Inr (PNumber (Num False 1)) \<and>
   parseInputValue (Some ''abc'') = Inl (Error ''Invalid integer: abc'') \<and>
   parseInputValue (Some ''a.b'') = Inl (Error ''Invalid number: a.b'')"
  by (simp add: inference_defs)

lemma quoted_string_inferred:
  assumes "mid \<noteq> []" and "CHR 0x22 \<notin> set mid"
  shows "parseInputValue (Some (CHR 0x22 # mid @ [CHR 0x22])) = Inr (PString mid)"
proof -
  let ?v = "CHR 0x22 # mid @ [CHR 0x22]"
  have ws: "\<not> isWhiteSpace (CHR 0x22)" by (simp add: isWhiteSpace_def)
  have "trim ?v = ?v"
    by (rule trim_keeps_nonblank_ends) (simp_all add: ws)
  moreover have "quotedRe ?v"
    using assms by (simp add: quotedRe_def butlast_append)
  moreover have "substring ?v 1 (length ?v - 1) = mid"
    by (simp add: substring_def)
  ultimately show ?thesis
    by (simp add: parseInputValue_def)
qed

text \<open>
  C6, as stated: every token wrapped in a pair of double quotes gives a string, the
  empty quoted token included. The pattern asks for at least one character between
  the quotes and for no double quote among them, so \<open>""\<close> and \<open>"a"b"\<close> go on to
  \<open>parseInt\<close> and are errors.
\<close>

theorem empty_quoted_token_rejected:
  "parseInputValue (Some [CHR 0x22, CHR 0x22]) =
     Inl (Error (''Invalid integer: '' @ [CHR 0x22, CHR 0x22])) \<and>
   parseInputValue (Some [CHR 0x22, CHR ''a'', CHR 0x22, CHR ''b'', CHR 0x22]) =
     Inl (Error (''Invalid integer: '' @ [CHR 0x22, CHR ''a'', CHR 0x22, CHR ''b'', CHR 0x22]))"
  by (simp add: inference_defs)

text \<open>
  C6, amended: a token made of a double quote, one or more characters none of which
  is a double quote, and a double quote gives the string between the quotes, also
  when that content reads as a number.
\<close>

theorem quoted_token_is_string:
  assumes "mid \<noteq> []" and "CHR 0x22 \<notin> set mid"
  shows "parseInputValue (Some (CHR 0x22 # mid @ [CHR 0x22])) = Inr (PString mid)"
  using assms by (rule quoted_string_inferred)

theorem quoted_token_is_string_witness:
  "''1.0'' \<noteq> [] \<and> CHR 0x22 \<notin> set ''1.0'' \<and>
   parseInputValue (Some (CHR 0x22 # ''1.0'' @ [CHR 0x22])) = Inr (PString ''1.0'')"
  using quoted_token_is_string [of "''1.0''"] by simp

lemma foldl_digits_zeros:
  "foldl (\<lambda>a c. 10 * a + (of_char c - 48)) (a::nat) (replicate n CHR ''0'') = a * 10 ^ n"
  by (induction n arbitrary: a) simp_all

lemma digitsValue_one_zeros: "digitsValue (CHR ''1'' # replicate n CHR ''0'') = 10 ^ n"
  by (simp add: digitsValue_def foldl_digits_zeros)

lemma one_zeros_digits: "\<forall>c\<in>set (CHR ''1'' # replicate n CHR ''0''). isDigit c"
  by (auto simp: isDigit_def)


text \<open>
  A decimal with an exponent beyond the range of a double is \<open>Infinity\<close>, and one
  below the smallest subnormal is zero.
\<close>

lemma parseFloat_range_examples:
  "parseInputValue (Some ''1.0e400'') = Inr (PNumber (Infinity False))"
  "parseInputValue (Some ''1.0e-400'') = Inr (PNumber (Num False 0))"
  by (simp_all add: inference_defs)

text \<open>
  C9, as stated: a token for negative zero, for a value beyond the native range or in
  scientific notation is rejected. \<open>parseInputValue\<close> checks only for NaN: \<open>-0\<close> gives
  negative zero, \<open>99999999999\<close> (beyond 32 bits) gives that number,
  \<open>9007199254740993\<close> (beyond 53 bits) gives the double next to it, a 1 followed by
  309 zeros (beyond the doubles) gives \<open>Infinity\<close>, and \<open>1.5e3\<close> gives 1500.
\<close>

theorem special_numbers_accepted:
  "parseInputValue (Some ''-0'') = Inr (PNumber (Num True 0)) \<and>
   parseInputValue (Some ''99999999999'') = Inr (PNumber (Num False 99999999999)) \<and>
   parseInputValue (Some ''9007199254740993'') = Inr (PNumber (Num False 9007199254740992)) \<and>
   parseInputValue (Some (CHR ''1'' # replicate 309 CHR ''0'')) = Inr (PNumber (Infinity False)) \<and>
   parseInputValue (Some ''1.5e3'') = Inr (PNumber (Num False 1500))"
proof -
  have big: "(2::nat) ^ 1024 \<le> 10 ^ 309" by simp
  have "parseInputValue (Some (CHR ''1'' # replicate 309 CHR ''0'')) =
          Inr (PNumber (toDouble False (10 ^ 309) 1))"
    using integer_token_inferred [OF _ one_zeros_digits, of 309]
    by (simp only: digitsValue_one_zeros list.distinct not_False_eq_True)
  then have inf: "parseInputValue (Some (CHR ''1'' # replicate 309 CHR ''0'')) =
          Inr (PNumber (Infinity False))"
    by (simp only: toDouble_overflow [OF big])
  have others: "parseInputValue (Some ''-0'') = Inr (PNumber (Num True 0))"
    "parseInputValue (Some ''99999999999'') = Inr (PNumber (Num False 99999999999))"
    "parseInputValue (Some ''9007199254740993'') = Inr (PNumber (Num False 9007199254740992))"
    "parseInputValue (Some ''1.5e3'') = Inr (PNumber (Num False 1500))"
    by (simp_all add: inference_defs)
  from others inf show ?thesis by (intro conjI)
qed

text \<open>
  C9, amended: no such token is rejected; the result is the double nearest to the
  value the token denotes. A run of digits of any length gives the number itself when
  it is below \<open>2^53\<close> and \<open>Infinity\<close> when it is \<open>2^1024\<close> or more; a minus sign in front
  gives the negative of it, negative zero for \<open>-0\<close>; digits with a decimal point and an
  exponent give the double nearest to the mantissa scaled by the power of ten.
\<close>

theorem numeric_tokens_not_rejected:
  assumes "ds \<noteq> []" "\<forall>c\<in>set ds. isDigit c"
    and "ip \<noteq> []" "\<forall>c\<in>set ip. isDigit c" "\<forall>c\<in>set fp. isDigit c"
  shows "parseInputValue (Some ds) = Inr (PNumber (toDouble False (digitsValue ds) 1)) \<and>
         parseInputValue (Some (CHR ''-'' # ds)) =
           Inr (PNumber (toDouble True (digitsValue ds) 1)) \<and>
         parseInputValue (Some (ip @ CHR ''.'' # fp @ CHR ''e'' # ds)) =
           Inr (PNumber (decimalToDouble False (digitsValue (ip @ fp))
                           (int (digitsValue ds) - int (length fp)))) \<and>
         (digitsValue ds < 2 ^ 53 \<longrightarrow>
            parseInputValue (Some ds) = Inr (PNumber (Num False (of_nat (digitsValue ds)))) \<and>
            parseInputValue (Some (CHR ''-'' # ds)) =
              Inr (PNumber (Num True (of_nat (digitsValue ds))))) \<and>
         (2 ^ 1024 \<le> digitsValue ds \<longrightarrow>
            parseInputValue (Some ds) = Inr (PNumber (Infinity False)) \<and>
            parseInputValue (Some (CHR ''-'' # ds)) = Inr (PNumber (Infinity True))) \<and>
         toDouble False (digitsValue ds) 1 \<noteq> NaN \<and>
         toDouble True (digitsValue ds) 1 \<noteq> NaN \<and>
         decimalToDouble False (digitsValue (ip @ fp))
           (int (digitsValue ds) - int (length fp)) \<noteq> NaN"
proof -
  note p = integer_token_inferred [OF assms(1,2)]
  note n = negative_token_inferred [OF assms(1,2)]
  note e = exponent_token_inferred [OF assms(3,4,5,1,2)]
  have small: "parseInputValue (Some ds) = Inr (PNumber (Num False (of_nat (digitsValue ds)))) \<and>
      parseInputValue (Some (CHR ''-'' # ds)) = Inr (PNumber (Num True (of_nat (digitsValue ds))))"
    if "digitsValue ds < 2 ^ 53"
    using p n by (simp only: toDouble_exact [OF that] simp_thms)
  have large: "parseInputValue (Some ds) = Inr (PNumber (Infinity False)) \<and>
      parseInputValue (Some (CHR ''-'' # ds)) = Inr (PNumber (Infinity True))"
    if "2 ^ 1024 \<le> digitsValue ds"
    using p n by (simp only: toDouble_overflow [OF that] simp_thms)
  have nn: "decimalToDouble False (digitsValue (ip @ fp))
              (int (digitsValue ds) - int (length fp)) \<noteq> NaN"
    by (simp add: decimalToDouble_def toDouble_not_NaN)
  show ?thesis
    by (intro conjI impI p n e toDouble_not_NaN nn) (simp_all only: small large)
qed

theorem numeric_tokens_not_rejected_witness:
  "''0'' \<noteq> [] \<and> list_all isDigit ''0'' \<and> ''1'' \<noteq> [] \<and> list_all isDigit ''1'' \<and>
   list_all isDigit ''5'' \<and>
   parseInputValue (Some ''0'') = Inr (PNumber (Num False 0)) \<and>
   parseInputValue (Some ''-0'') = Inr (PNumber (Num True 0)) \<and>
   parseInputValue (Some ''1.5e0'') = Inr (PNumber (Num False (3 / 2)))"
proof -
  have d: "''0'' \<noteq> []" "\<forall>c\<in>set ''0''. isDigit c" "''1'' \<noteq> []" "\<forall>c\<in>set ''1''. isDigit c"
    "\<forall>c\<in>set ''5''. isDigit c"
    by (simp_all add: isDigit_def)
  have v: "digitsValue ''0'' < 2 ^ 53" by (simp add: digitsValue_def)
  note t = numeric_tokens_not_rejected [OF d]
  have z: "parseInputValue (Some ''0'') = Inr (PNumber (Num False (of_nat (digitsValue ''0'')))) \<and>
        parseInputValue (Some (CHR ''-'' # ''0'')) =
          Inr (PNumber (Num True (of_nat (digitsValue ''0''))))"
    using t v by blast
  have x: "parseInputValue (Some (''1'' @ CHR ''.'' # ''5'' @ CHR ''e'' # ''0'')) =
           Inr (PNumber (decimalToDouble False (digitsValue (''1'' @ ''5''))
                           (int (digitsValue ''0'') - int (length ''5''))))"
    using t by blast
  show ?thesis
    using z x
    by (simp add: isDigit_def digitsValue_def decimalToDouble_def toDouble_def roundHalfEven_def
        pow2le_def bitLength.simps Let_def)
qed

section \<open>Properties of the codec of the specification\<close>

lemma charOfByte_byteOfChar: "charOfByte (byteOfChar c) = c"
  by (simp add: charOfByte_def byteOfChar_def unat_of_nat)

lemma charOfByte_0: "charOfByte 0 = CHR 0x00"
  by (simp add: charOfByte_def char_of_def)

lemma byteOfChar_eq_0: "byteOfChar c = 0 \<longleftrightarrow> c = CHR 0x00"
proof
  assume z: "byteOfChar c = 0"
  have "c = charOfByte (byteOfChar c)" by (simp only: charOfByte_byteOfChar)
  also have "\<dots> = charOfByte 0" by (simp only: z)
  finally show "c = CHR 0x00" by (simp only: charOfByte_0)
next
  assume "c = CHR 0x00"
  then show "byteOfChar c = 0" by (simp add: byteOfChar_def)
qed

lemma fromBe32_be32: "fromBe32 (be32 w) = w"
proof (rule bit_word_eqI)
  fix n assume n: "n < LENGTH(32)"
  consider "n < 8" | "8 \<le> n" "n < 16" | "16 \<le> n" "n < 24" | "24 \<le> n" "n < 32"
    using n by fastforce
  then show "bit (fromBe32 (be32 w)) n = bit w n"
    by cases (auto simp add: fromBe32_def be32_def bit_simps)
qed

lemma length_be32: "length (be32 w) = 4"
  by (simp add: be32_def)

lemma decodeString_encodeString:
  assumes "CHR 0x00 \<notin> set s"
  shows "decodeString (encodeString s @ rest) = Inr (s, rest)"
proof -
  let ?body = "map byteOfChar s"
  let ?pad = "replicate (padding (length s + 1)) (0::byte)"
  have nz: "\<forall>b\<in>set ?body. b \<noteq> 0"
    using assms by (auto simp: byteOfChar_eq_0)
  have "takeWhile (\<lambda>b. b \<noteq> 0) (?body @ 0 # ?pad @ rest) =
          ?body @ takeWhile (\<lambda>b. b \<noteq> 0) (0 # ?pad @ rest)"
    by (rule takeWhile_append2) (use nz in blast)
  then have tw: "takeWhile (\<lambda>b. b \<noteq> 0) (encodeString s @ rest) = ?body"
    by (simp add: encodeString_def)
  have len: "length (encodeString s) = length s + 1 + padding (length s + 1)"
    by (simp add: encodeString_def)
  show ?thesis
    unfolding decodeString_def tw
    by (simp add: Let_def len charOfByte_byteOfChar comp_def)
qed

lemma decodeArg_encodeArg:
  assumes "validArg a"
  shows "decodeArg (tagOf a) (encodeArg a @ rest) = Inr (a, rest)"
proof (cases a)
  case (Int32 w)
  then show ?thesis by (simp add: decodeArg_def length_be32 fromBe32_be32)
next
  case (Float32 w)
  then show ?thesis by (simp add: decodeArg_def length_be32 fromBe32_be32)
next
  case (String s)
  then show ?thesis using assms by (simp add: decodeArg_def decodeString_encodeString)
next
  case (Blob bs)
  with assms have "unat (of_nat (length bs) :: 32 word) = length bs"
    by (simp add: unat_of_nat)
  with Blob show ?thesis
    by (simp add: decodeArg_def length_be32 fromBe32_be32 Let_def)
next
  case (Unknown t)
  with assms show ?thesis by simp
qed

lemma decodeArgs_encodeArgs:
  assumes "list_all validArg as"
  shows "decodeArgs (map tagOf as) (concat (map encodeArg as) @ rest) = Inr (as, rest)"
  using assms by (induction as) (simp_all add: decodeArg_encodeArg)

lemma tagOf_not_NUL: "validArg a \<Longrightarrow> tagOf a \<noteq> CHR 0x00"
  by (cases a) simp_all

text \<open>
  C1. Round trip, on the codec of the specification: for every message that satisfies
  the invariants (address not empty, starting with \<open>/\<close>, without NUL; arguments among
  \<open>Int32\<close>, \<open>Float32\<close>, \<open>String\<close> without NUL and \<open>Blob\<close>), decoding the bytes of its
  encoding succeeds and gives the message back.
\<close>

theorem decode_encode_roundtrip:
  assumes "validMessage m"
  shows "decode (encode m) = Inr m"
proof -
  from assms have addr: "CHR 0x00 \<notin> set (msgAddress m)" "startsWith (msgAddress m) ''/''"
    and as: "list_all validArg (msgArgs m)"
    by (simp_all add: validMessage_def)
  have "tagOf a \<noteq> CHR 0x00" if "a \<in> set (msgArgs m)" for a
    using that as by (simp add: list_all_iff tagOf_not_NUL)
  then have tags: "CHR 0x00 \<notin> set (CHR '','' # map tagOf (msgArgs m))"
    by fastforce
  have args: "decodeArgs (map tagOf (msgArgs m)) (concat (map encodeArg (msgArgs m))) =
          Inr (msgArgs m, [])"
    using decodeArgs_encodeArgs [OF as, of "[]"] by simp
  have s1: "decodeString (encode m) =
      Inr (msgAddress m, encodeString (CHR '','' # map tagOf (msgArgs m)) @
                           concat (map encodeArg (msgArgs m)))"
    unfolding encode_def by (rule decodeString_encodeString [OF addr(1)])
  have s2: "decodeString (encodeString (CHR '','' # map tagOf (msgArgs m)) @
                           concat (map encodeArg (msgArgs m))) =
      Inr (CHR '','' # map tagOf (msgArgs m), concat (map encodeArg (msgArgs m)))"
    by (rule decodeString_encodeString [OF tags])
  show ?thesis
    unfolding decode_def s1 by (simp add: s2 args addr(2))
qed

theorem decode_encode_roundtrip_witness:
  "validMessage \<lparr>msgAddress = ''/a'',
                  msgArgs = [Int32 42, String ''red'', Blob [1, 2, 3], Float32 0x3F800000]\<rparr> \<and>
   decode (encode \<lparr>msgAddress = ''/a'',
                    msgArgs = [Int32 42, String ''red'', Blob [1, 2, 3], Float32 0x3F800000]\<rparr>) =
     Inr \<lparr>msgAddress = ''/a'',
          msgArgs = [Int32 42, String ''red'', Blob [1, 2, 3], Float32 0x3F800000]\<rparr>"
proof -
  have v: "validMessage \<lparr>msgAddress = ''/a'',
             msgArgs = [Int32 42, String ''red'', Blob [1, 2, 3], Float32 0x3F800000]\<rparr>"
    by (simp add: validMessage_def startsWith_def)
  from v decode_encode_roundtrip [OF v] show ?thesis by simp
qed

section \<open>Properties of the send loop\<close>

lemma split_ws_not_Nil: "split_ws s \<noteq> []"
  by (subst split_ws.simps) (simp add: Let_def)










lemma sendLoop_step:
  assumes "exited (sendTurn env port ip st ev) = None"
  shows "sendLoop env port ip st (ev # evs) = sendLoop env port ip (sendTurn env port ip st ev) evs"
  using assms by (simp add: Let_def)

lemma exited_print: "exited (print c st) = exited st"
  by (simp add: print_def)

lemma sendTurn_command:
  assumes "\<not> isQuit (trim input)" "split_ws (trim input) = a # rest"
  shows "sendTurn env port ip st (Answer input, outcome) =
     (if \<not> startsWith a ''/''
      then print (ErrorText ''OSC address must start with /'') st
      else if join '' '' rest = []
      then print (ErrorText ''Please provide a value'') st
      else
        (case parseInputValue (Some (join '' '' rest)) of
           Inl err \<Rightarrow> print (ErrorText (''Error parsing value: '' @ message err)) st
         | Inr v \<Rightarrow>
             (case toBuffer env a (if valueIsNaN v then [] else [v]) of
                Inl err \<Rightarrow> loopCatch err st
              | Inr msg \<Rightarrow>
                  (case sendMessage outcome msg port ip st of
                     (st', Some err) \<Rightarrow> loopCatch err st'
                   | (st', None) \<Rightarrow>
                       print (Log (''Sent: '' @ a @ '' = '' @ stringOfValue env v)) st'))))"
  unfolding sendTurn_def
  by (simp only: fst_conv snd_conv prompt_result.case assms if_False Let_def list.case)

lemma sendTurn_value:
  assumes "\<not> isQuit (trim input)" "split_ws (trim input) = a # rest"
    and "startsWith a ''/''" "join '' '' rest \<noteq> []"
    and "parseInputValue (Some (join '' '' rest)) = Inr v"
    and "toBuffer env a (if valueIsNaN v then [] else [v]) = Inr msg"
    and "1 \<le> port" "port \<le> 65535"
  shows "sendTurn env port ip st (Answer input, outcome) =
     (case outcome of
        Some err \<Rightarrow> loopCatch err (st\<lparr>sent := sent st @ [(msg, port, ip)]\<rparr>)
      | None \<Rightarrow>
          print (Log (''Sent: '' @ a @ '' = '' @ stringOfValue env v))
            (st\<lparr>sent := sent st @ [(msg, port, ip)]\<rparr>))"
proof -
  have sm: "sendMessage out msg port ip st =
              (st\<lparr>sent := sent st @ [(msg, port, ip)]\<rparr>, out)" for out
    using assms(7,8) by (simp add: sendMessage_def)
  show ?thesis
    by (cases outcome)
       (simp_all add: sendTurn_command [OF assms(1,2)] assms(3,4,5,6) sm)
qed

lemma parse_1_2:
  "parseInputValue (Some ''1'') = Inr (PNumber (Num False 1))"
  "parseInputValue (Some ''2'') = Inr (PNumber (Num False 2))"
  by (simp_all add: inference_defs)

lemma sample_turn_a:
  "sendTurn sampleSendEnv 9000 ip st (Answer ''/a 1'', outcome) =
     (case outcome of
        Some err \<Rightarrow> loopCatch err (st\<lparr>sent := sent st @ [([47, 97], 9000, ip)]\<rparr>)
      | None \<Rightarrow>
          print (Log ''Sent: /a = <number>'') (st\<lparr>sent := sent st @ [([47, 97], 9000, ip)]\<rparr>))"
proof -
  have q: "\<not> isQuit (trim ''/a 1'')" by code_simp
  have s: "split_ws (trim ''/a 1'') = ''/a'' # [''1'']" by code_simp
  have a: "startsWith ''/a'' ''/''" by (simp add: startsWith_def)
  have j: "join '' '' [''1''] \<noteq> []" by simp
  have p: "parseInputValue (Some (join '' '' [''1''])) = Inr (PNumber (Num False 1))"
    by (simp add: parse_1_2)
  have b: "toBuffer sampleSendEnv ''/a''
             (if valueIsNaN (PNumber (Num False 1)) then [] else [PNumber (Num False 1)]) =
           Inr [47, 97]"
    by (simp add: sampleSendEnv_def)
  have n: "stringOfValue sampleSendEnv (PNumber (Num False 1)) = ''<number>''"
    by (simp add: stringOfValue_def sampleSendEnv_def)
  show ?thesis
    using sendTurn_value [OF q s a j p b, of 9000 ip st outcome]
    by (cases outcome) (simp_all add: n)
qed

lemma sample_turn_b:
  "sendTurn sampleSendEnv 9000 ip st (Answer ''/b 2'', outcome) =
     (case outcome of
        Some err \<Rightarrow> loopCatch err (st\<lparr>sent := sent st @ [([47, 98], 9000, ip)]\<rparr>)
      | None \<Rightarrow>
          print (Log ''Sent: /b = <number>'') (st\<lparr>sent := sent st @ [([47, 98], 9000, ip)]\<rparr>))"
proof -
  have q: "\<not> isQuit (trim ''/b 2'')" by code_simp
  have s: "split_ws (trim ''/b 2'') = ''/b'' # [''2'']" by code_simp
  have a: "startsWith ''/b'' ''/''" by (simp add: startsWith_def)
  have j: "join '' '' [''2''] \<noteq> []" by simp
  have p: "parseInputValue (Some (join '' '' [''2''])) = Inr (PNumber (Num False 2))"
    by (simp add: parse_1_2)
  have b: "toBuffer sampleSendEnv ''/b''
             (if valueIsNaN (PNumber (Num False 2)) then [] else [PNumber (Num False 2)]) =
           Inr [47, 98]"
    by (simp add: sampleSendEnv_def)
  have n: "stringOfValue sampleSendEnv (PNumber (Num False 2)) = ''<number>''"
    by (simp add: stringOfValue_def sampleSendEnv_def)
  show ?thesis
    using sendTurn_value [OF q s a j p b, of 9000 ip st outcome]
    by (cases outcome) (simp_all add: n)
qed

text \<open>
  C8, as stated: a failed send never keeps the next command from being processed. The
  \<open>catch\<close> of the loop body ends the process when the message of the error holds
  \<open>User force closed\<close>, whatever threw it: here the first send fails with such an
  error, the process exits with code 0 and the second command is never read.
\<close>

theorem send_error_can_end_loop:
  "sendLoop sampleSendEnv 9000 ''127.0.0.1'' emptySendState
     [(Answer ''/a 1'', Some (Error ''User force closed'')), (Answer ''/b 2'', None)] =
   \<lparr>console = [Log (CHR 0x0A # ''Goodbye!'')], sent = [([47, 97], 9000, ''127.0.0.1'')],
    closed = False, exited = Some 0\<rparr>"
  by (simp add: sample_turn_a loopCatch_def print_def emptySendState_def startsWith_def)

text \<open>
  C8, amended: for every command line that is not a quit command, an address that does
  not start with \<open>/\<close>, a missing value and a value that does not parse are each
  reported with one \<open>console.error\<close>, nothing is handed to the socket, and the loop
  goes on with the next command; a send that fails with an error whose message does
  not hold \<open>User force closed\<close> is reported the same way and the loop goes on with
  the next command; a send that fails with an error whose message holds
  \<open>User force closed\<close> ends the process with code 0.
\<close>

theorem failed_command_does_not_stop_loop:
  assumes "exited st = None" "\<not> isQuit (trim input)" "split_ws (trim input) = a # rest"
  shows
    "(\<not> startsWith a ''/'' \<longrightarrow>
        sendLoop env port ip st ((Answer input, outcome) # evs) =
        sendLoop env port ip (print (ErrorText ''OSC address must start with /'') st) evs) \<and>
     (startsWith a ''/'' \<and> join '' '' rest = [] \<longrightarrow>
        sendLoop env port ip st ((Answer input, outcome) # evs) =
        sendLoop env port ip (print (ErrorText ''Please provide a value'') st) evs) \<and>
     (\<forall>err. startsWith a ''/'' \<and> join '' '' rest \<noteq> [] \<and>
            parseInputValue (Some (join '' '' rest)) = Inl err \<longrightarrow>
        sendLoop env port ip st ((Answer input, outcome) # evs) =
        sendLoop env port ip (print (ErrorText (''Error parsing value: '' @ message err)) st) evs) \<and>
     (\<forall>v msg err. startsWith a ''/'' \<and> join '' '' rest \<noteq> [] \<and>
            parseInputValue (Some (join '' '' rest)) = Inr v \<and>
            toBuffer env a (if valueIsNaN v then [] else [v]) = Inr msg \<and>
            1 \<le> port \<and> port \<le> 65535 \<and> outcome = Some err \<and>
            \<not> includesStr (message err) ''User force closed'' \<longrightarrow>
        sendLoop env port ip st ((Answer input, outcome) # evs) =
        sendLoop env port ip
          (print (ErrorText (''Error sending message: '' @ message err))
             (st\<lparr>sent := sent st @ [(msg, port, ip)]\<rparr>)) evs) \<and>
     (\<forall>v msg err. startsWith a ''/'' \<and> join '' '' rest \<noteq> [] \<and>
            parseInputValue (Some (join '' '' rest)) = Inr v \<and>
            toBuffer env a (if valueIsNaN v then [] else [v]) = Inr msg \<and>
            1 \<le> port \<and> port \<le> 65535 \<and> outcome = Some err \<and>
            includesStr (message err) ''User force closed'' \<longrightarrow>
        sendLoop env port ip st ((Answer input, outcome) # evs) =
          (print (Log (CHR 0x0A # ''Goodbye!''))
             (st\<lparr>sent := sent st @ [(msg, port, ip)]\<rparr>))\<lparr>exited := Some 0\<rparr>)"
proof -
  note turn = sendTurn_command [OF assms(2,3), of env port ip st outcome]
  have c1: "sendLoop env port ip st ((Answer input, outcome) # evs) =
        sendLoop env port ip (print (ErrorText ''OSC address must start with /'') st) evs"
    if "\<not> startsWith a ''/''"
  proof -
    have "sendTurn env port ip st (Answer input, outcome) =
            print (ErrorText ''OSC address must start with /'') st"
      using that by (simp add: turn)
    then show ?thesis using sendLoop_step [of env port ip st "(Answer input, outcome)" evs]
      by (simp add: exited_print assms(1))
  qed
  have c2: "sendLoop env port ip st ((Answer input, outcome) # evs) =
        sendLoop env port ip (print (ErrorText ''Please provide a value'') st) evs"
    if "startsWith a ''/''" "join '' '' rest = []"
  proof -
    have "sendTurn env port ip st (Answer input, outcome) =
            print (ErrorText ''Please provide a value'') st"
      using that by (simp add: turn)
    then show ?thesis using sendLoop_step [of env port ip st "(Answer input, outcome)" evs]
      by (simp add: exited_print assms(1))
  qed
  have c3: "sendLoop env port ip st ((Answer input, outcome) # evs) =
        sendLoop env port ip (print (ErrorText (''Error parsing value: '' @ message err)) st) evs"
    if "startsWith a ''/''" "join '' '' rest \<noteq> []"
      "parseInputValue (Some (join '' '' rest)) = Inl err" for err
  proof -
    have "sendTurn env port ip st (Answer input, outcome) =
            print (ErrorText (''Error parsing value: '' @ message err)) st"
      using that by (simp add: turn)
    then show ?thesis using sendLoop_step [of env port ip st "(Answer input, outcome)" evs]
      by (simp add: exited_print assms(1))
  qed
  have c4: "sendLoop env port ip st ((Answer input, outcome) # evs) =
        sendLoop env port ip
          (print (ErrorText (''Error sending message: '' @ message err))
             (st\<lparr>sent := sent st @ [(msg, port, ip)]\<rparr>)) evs"
    if "startsWith a ''/''" "join '' '' rest \<noteq> []"
      "parseInputValue (Some (join '' '' rest)) = Inr v"
      "toBuffer env a (if valueIsNaN v then [] else [v]) = Inr msg"
      "1 \<le> port" "port \<le> 65535" "outcome = Some err"
      "\<not> includesStr (message err) ''User force closed''" for v msg err
  proof -
    have "sendMessage outcome msg port ip st =
            (st\<lparr>sent := sent st @ [(msg, port, ip)]\<rparr>, Some err)"
      using that(5,6,7) by (simp add: sendMessage_def)
    then have "sendTurn env port ip st (Answer input, outcome) =
            print (ErrorText (''Error sending message: '' @ message err))
              (st\<lparr>sent := sent st @ [(msg, port, ip)]\<rparr>)"
      using that(1,2,3,4,8) by (simp add: turn loopCatch_def)
    then show ?thesis using sendLoop_step [of env port ip st "(Answer input, outcome)" evs]
      by (simp add: exited_print assms(1))
  qed
  have c5: "sendLoop env port ip st ((Answer input, outcome) # evs) =
          (print (Log (CHR 0x0A # ''Goodbye!''))
             (st\<lparr>sent := sent st @ [(msg, port, ip)]\<rparr>))\<lparr>exited := Some 0\<rparr>"
    if "startsWith a ''/''" "join '' '' rest \<noteq> []"
      "parseInputValue (Some (join '' '' rest)) = Inr v"
      "toBuffer env a (if valueIsNaN v then [] else [v]) = Inr msg"
      "1 \<le> port" "port \<le> 65535" "outcome = Some err"
      "includesStr (message err) ''User force closed''" for v msg err
  proof -
    have "sendMessage outcome msg port ip st =
            (st\<lparr>sent := sent st @ [(msg, port, ip)]\<rparr>, Some err)"
      using that(5,6,7) by (simp add: sendMessage_def)
    then have "sendTurn env port ip st (Answer input, outcome) =
            (print (Log (CHR 0x0A # ''Goodbye!''))
               (st\<lparr>sent := sent st @ [(msg, port, ip)]\<rparr>))\<lparr>exited := Some 0\<rparr>"
      using that(1,2,3,4,8) by (simp add: turn loopCatch_def)
    then show ?thesis by (simp add: Let_def)
  qed
  from c1 c2 c3 c4 c5 show ?thesis by blast
qed

theorem failed_command_does_not_stop_loop_witness:
  "sendLoop sampleSendEnv 9000 ''127.0.0.1'' emptySendState
     [(Answer ''/a 1'', Some (Error ''send EPERM'')), (Answer ''/b 2'', None)] =
   \<lparr>console = [ErrorText ''Error sending message: send EPERM'', Log ''Sent: /b = <number>''],
    sent = [([47, 97], 9000, ''127.0.0.1''), ([47, 98], 9000, ''127.0.0.1'')],
    closed = False, exited = None\<rparr>"
proof -
  have h1: "exited emptySendState = None" by (simp add: emptySendState_def)
  have h2: "\<not> isQuit (trim ''/a 1'')" by code_simp
  have h3: "split_ws (trim ''/a 1'') = ''/a'' # [''1'']" by code_simp
  have h4: "startsWith ''/a'' ''/'' \<and> join '' '' [''1''] \<noteq> [] \<and>
            parseInputValue (Some (join '' '' [''1''])) = Inr (PNumber (Num False 1)) \<and>
            toBuffer sampleSendEnv ''/a''
              (if valueIsNaN (PNumber (Num False 1)) then [] else [PNumber (Num False 1)]) =
              Inr [47, 97] \<and>
            (1::int) \<le> 9000 \<and> (9000::int) \<le> 65535 \<and>
            Some (Error ''send EPERM'') = Some (Error ''send EPERM'') \<and>
            \<not> includesStr (message (Error ''send EPERM'')) ''User force closed''"
    by (simp add: parse_1_2 startsWith_def sampleSendEnv_def valueIsNaN_def isNaN_def)
  have step: "sendLoop sampleSendEnv 9000 ''127.0.0.1'' emptySendState
                ((Answer ''/a 1'', Some (Error ''send EPERM'')) # [(Answer ''/b 2'', None)]) =
              sendLoop sampleSendEnv 9000 ''127.0.0.1''
                (print (ErrorText (''Error sending message: '' @ message (Error ''send EPERM'')))
                   (emptySendState\<lparr>sent := sent emptySendState @ [([47, 97], 9000, ''127.0.0.1'')]\<rparr>))
                [(Answer ''/b 2'', None)]"
    using failed_command_does_not_stop_loop [OF h1 h2 h3, of sampleSendEnv 9000 "''127.0.0.1''"
        "Some (Error ''send EPERM'')" "[(Answer ''/b 2'', None)]"] h4
    by blast
  have rest: "sendLoop sampleSendEnv 9000 ''127.0.0.1''
                (print (ErrorText (''Error sending message: '' @ message (Error ''send EPERM'')))
                   (emptySendState\<lparr>sent := sent emptySendState @ [([47, 97], 9000, ''127.0.0.1'')]\<rparr>))
                [(Answer ''/b 2'', None)] =
     \<lparr>console = [ErrorText ''Error sending message: send EPERM'', Log ''Sent: /b = <number>''],
      sent = [([47, 97], 9000, ''127.0.0.1''), ([47, 98], 9000, ''127.0.0.1'')],
      closed = False, exited = None\<rparr>"
    by (simp add: sample_turn_b print_def emptySendState_def)
  show ?thesis using step rest by (simp only:)
qed

section \<open>Properties of the monitor\<close>

lemma mprint_Nil: "mprint [] st = st"
  by (simp add: mprint_def)

lemma mprint_mprint: "mprint cs' (mprint cs st) = mprint (cs @ cs') st"
  by (simp add: mprint_def)

lemma mphase_mprint: "mphase (mprint cs st) = mphase st"
  by (simp add: mprint_def)

lemma monitorStep_message:
  "mphase st = Listening \<Longrightarrow> monitorStep env port st (MessageEv b) = mprint (onMessage env port b) st"
  by (simp add: monitorStep_def)

lemma monitorRun_messages:
  assumes "mphase st = Listening"
  shows "monitorRun env port st (map MessageEv ds) = mprint (concat (map (onMessage env port) ds)) st"
  using assms
proof (induction ds arbitrary: st)
  case Nil
  then show ?case by (simp add: mprint_Nil)
next
  case (Cons d ds)
  have "mphase (mprint (onMessage env port d) st) = Listening"
    using Cons.prems by (simp add: mphase_mprint)
  from Cons.IH [OF this] show ?case
    using Cons.prems by (simp add: monitorStep_message mprint_mprint)
qed

lemma monitorRun_Stopped:
  "mphase st = Stopped \<Longrightarrow> monitorRun env port st evs = st"
  by (induction evs) (simp_all add: monitorStep_def)

lemma onMessage_decoded:
  assumes "fromBuffer env d = Inr m" "address m = Some a" "a \<noteq> []"
  shows "\<exists>l. onMessage env port d = [Log l]"
  using assms by (simp add: onMessage_def split: option.split)

lemma onMessage_failed:
  assumes "fromBuffer env d = Inl err"
  shows "onMessage env port d = [ErrorText ''Error parsing OSC message:'', ErrorText (message err)]"
  using assms by (simp add: onMessage_def)

text \<open>
  C2. While the monitor is listening, every datagram adds to the console what the
  \<open>'message'\<close> handler prints for it and leaves the monitor listening: a datagram
  whose decoding throws adds exactly one error report (the heading
  \<open>Error parsing OSC message:\<close> and the message of the error). For three datagrams
  of which the second is malformed, the console gains one line for the first, one
  error report for the second and one line for the third, and the monitor is still
  listening.
\<close>

theorem malformed_datagram_does_not_stop_monitor:
  assumes "mphase st = Listening"
  shows "mphase (monitorRun env port st (map MessageEv ds)) = Listening \<and>
         caller (monitorRun env port st (map MessageEv ds)) = caller st \<and>
         mconsole (monitorRun env port st (map MessageEv ds)) =
           mconsole st @ concat (map (onMessage env port) ds) \<and>
         (\<forall>d err. fromBuffer env d = Inl err \<longrightarrow>
            onMessage env port d =
              [ErrorText ''Error parsing OSC message:'', ErrorText (message err)]) \<and>
         (\<forall>d1 d2 d3 m1 m3 a1 a3 err.
            fromBuffer env d1 = Inr m1 \<and> address m1 = Some a1 \<and> a1 \<noteq> [] \<and>
            fromBuffer env d2 = Inl err \<and>
            fromBuffer env d3 = Inr m3 \<and> address m3 = Some a3 \<and> a3 \<noteq> [] \<longrightarrow>
            (\<exists>l1 l3.
               mconsole (monitorRun env port st [MessageEv d1, MessageEv d2, MessageEv d3]) =
                 mconsole st @ [Log l1, ErrorText ''Error parsing OSC message:'',
                                ErrorText (message err), Log l3]) \<and>
            mphase (monitorRun env port st [MessageEv d1, MessageEv d2, MessageEv d3]) = Listening)"
proof -
  note run = monitorRun_messages [OF assms, of env port]
  have general: "mphase (monitorRun env port st (map MessageEv ds)) = Listening"
    "caller (monitorRun env port st (map MessageEv ds)) = caller st"
    "mconsole (monitorRun env port st (map MessageEv ds)) =
       mconsole st @ concat (map (onMessage env port) ds)"
    using assms by (simp_all add: run mprint_def)
  have three: "(\<exists>l1 l3.
               mconsole (monitorRun env port st [MessageEv d1, MessageEv d2, MessageEv d3]) =
                 mconsole st @ [Log l1, ErrorText ''Error parsing OSC message:'',
                                ErrorText (message err), Log l3]) \<and>
            mphase (monitorRun env port st [MessageEv d1, MessageEv d2, MessageEv d3]) = Listening"
    if h: "fromBuffer env d1 = Inr m1" "address m1 = Some a1" "a1 \<noteq> []"
       "fromBuffer env d2 = Inl err"
       "fromBuffer env d3 = Inr m3" "address m3 = Some a3" "a3 \<noteq> []"
    for d1 d2 d3 m1 m3 a1 a3 err
  proof -
    obtain l1 where l1: "onMessage env port d1 = [Log l1]"
      using onMessage_decoded [OF h(1,2,3)] by blast
    obtain l3 where l3: "onMessage env port d3 = [Log l3]"
      using onMessage_decoded [OF h(5,6,7)] by blast
    have "concat (map (onMessage env port) [d1, d2, d3]) =
            [Log l1, ErrorText ''Error parsing OSC message:'', ErrorText (message err), Log l3]"
      by (simp add: l1 l3 onMessage_failed [OF h(4)])
    then have "monitorRun env port st (map MessageEv [d1, d2, d3]) =
            mprint [Log l1, ErrorText ''Error parsing OSC message:'',
                    ErrorText (message err), Log l3] st"
      by (simp only: run)
    then show ?thesis using assms by (simp add: mprint_def)
  qed
  have failed: "\<forall>d err. fromBuffer env d = Inl err \<longrightarrow>
            onMessage env port d =
              [ErrorText ''Error parsing OSC message:'', ErrorText (message err)]"
    by (simp add: onMessage_failed)
  from three have three': "\<forall>d1 d2 d3 m1 m3 a1 a3 err.
            fromBuffer env d1 = Inr m1 \<and> address m1 = Some a1 \<and> a1 \<noteq> [] \<and>
            fromBuffer env d2 = Inl err \<and>
            fromBuffer env d3 = Inr m3 \<and> address m3 = Some a3 \<and> a3 \<noteq> [] \<longrightarrow>
            (\<exists>l1 l3.
               mconsole (monitorRun env port st [MessageEv d1, MessageEv d2, MessageEv d3]) =
                 mconsole st @ [Log l1, ErrorText ''Error parsing OSC message:'',
                                ErrorText (message err), Log l3]) \<and>
            mphase (monitorRun env port st [MessageEv d1, MessageEv d2, MessageEv d3]) = Listening"
    by (intro allI impI) (elim conjE, rule three)
  show ?thesis
    by (intro conjI general failed three')
qed

theorem malformed_datagram_does_not_stop_monitor_witness:
  "mphase (monitorRun sampleMonitorEnv 9000 listeningState (map MessageEv [[1], [], [2]])) =
     Listening \<and>
   mconsole (monitorRun sampleMonitorEnv 9000 listeningState (map MessageEv [[1], [], [2]])) =
     [Log (''[9000] '' @ padEnd ''/ping'' 30 @ '' (null)''),
      ErrorText ''Error parsing OSC message:'',
      ErrorText ''Offset is outside the bounds of the DataView'',
      Log (''[9000] '' @ padEnd ''/ping'' 30 @ '' (null)'')]"
proof -
  have l: "mphase listeningState = Listening" by (simp add: listeningState_def)
  have c: "mconsole listeningState @
             concat (map (onMessage sampleMonitorEnv 9000) [[1], [], [2]]) =
     [Log (''[9000] '' @ padEnd ''/ping'' 30 @ '' (null)''),
      ErrorText ''Error parsing OSC message:'',
      ErrorText ''Offset is outside the bounds of the DataView'',
      Log (''[9000] '' @ padEnd ''/ping'' 30 @ '' (null)'')]"
    by (simp add: onMessage_def sampleMonitorEnv_def listeningState_def showInt_def
        showNat.simps digitChar_def)
  note t = malformed_datagram_does_not_stop_monitor [OF l, of sampleMonitorEnv 9000 "[[1], [], [2]]"]
  note p = t [THEN conjunct1]
  note q = t [THEN conjunct2, THEN conjunct2, THEN conjunct1]
  show ?thesis
    by (rule conjI [OF p]) (simp only: q c)
qed

text \<open>
  C7, as stated: a socket error is reported to the caller of the monitor as fatal. Once
  the socket is listening, \<open>monitor\<close> has returned; the \<open>reject\<close> in the handler of
  \<open>createUdpSocket\<close> then has no effect, and the caller has seen a normal return.
\<close>

theorem socket_error_while_listening_not_thrown:
  "caller (monitorRun sampleMonitorEnv 9000 (monitorStart 9000 None)
            [ListeningEv, ErrorEv (Error ''read ECONNRESET'') None]) = Returned \<and>
   mphase (monitorRun sampleMonitorEnv 9000 (monitorStart 9000 None)
            [ListeningEv, ErrorEv (Error ''read ECONNRESET'') None]) = Stopped"
  by (simp add: monitorStart_def monitorStep_def mprint_def socketOnError_def monitorOnError_def)

text \<open>
  C7, amended: a socket error closes the endpoint, whatever the monitor was doing, and
  no later event changes anything. While the monitor is listening the error is printed
  by both \<open>'error'\<close> handlers and the caller is not told; while the socket is still
  binding, the error is printed and \<open>monitor\<close> throws it to its caller.
\<close>

theorem socket_error_stops_monitor:
  "(mphase st \<noteq> Stopped \<longrightarrow>
      mphase (monitorStep env port st (ErrorEv err stack)) = Stopped \<and>
      monitorRun env port (monitorStep env port st (ErrorEv err stack)) evs =
        monitorStep env port st (ErrorEv err stack)) \<and>
   (mphase st = Listening \<longrightarrow>
      caller (monitorStep env port st (ErrorEv err stack)) = caller st \<and>
      mconsole (monitorStep env port st (ErrorEv err stack)) =
        mconsole st @ [ErrorText ''Socket error:'', ErrorObj err] @
        (case stack of None \<Rightarrow> [] | Some s \<Rightarrow> if s = [] then [] else [ErrorText s]) @
        [ErrorText ''Socket error in monitor:'', ErrorText (message err)]) \<and>
   (mphase st = Binding \<longrightarrow>
      caller (monitorStep env port st (ErrorEv err stack)) = Threw err \<and>
      mconsole (monitorStep env port st (ErrorEv err stack)) =
        mconsole st @ [ErrorText ''Socket error:'', ErrorObj err] @
        (case stack of None \<Rightarrow> [] | Some s \<Rightarrow> if s = [] then [] else [ErrorText s]) @
        [ErrorText (''Failed to start monitor: '' @ message err)])"
proof -
  have stopped: "mphase (monitorStep env port st (ErrorEv err stack)) = Stopped"
    if "mphase st \<noteq> Stopped"
    using that
    by (cases "mphase st")
       (simp_all add: monitorStep_def socketOnError_def monitorOnError_def monitorCatch_def
          mprint_def)
  have listening: "caller (monitorStep env port st (ErrorEv err stack)) = caller st \<and>
      mconsole (monitorStep env port st (ErrorEv err stack)) =
        mconsole st @ [ErrorText ''Socket error:'', ErrorObj err] @
        (case stack of None \<Rightarrow> [] | Some s \<Rightarrow> if s = [] then [] else [ErrorText s]) @
        [ErrorText ''Socket error in monitor:'', ErrorText (message err)]"
    if "mphase st = Listening"
    using that
    by (simp add: monitorStep_def socketOnError_def monitorOnError_def mprint_def)
  have binding: "caller (monitorStep env port st (ErrorEv err stack)) = Threw err \<and>
      mconsole (monitorStep env port st (ErrorEv err stack)) =
        mconsole st @ [ErrorText ''Socket error:'', ErrorObj err] @
        (case stack of None \<Rightarrow> [] | Some s \<Rightarrow> if s = [] then [] else [ErrorText s]) @
        [ErrorText (''Failed to start monitor: '' @ message err)]"
    if "mphase st = Binding"
    using that
    by (simp add: monitorStep_def socketOnError_def monitorCatch_def mprint_def)
  show ?thesis
    using stopped monitorRun_Stopped [OF stopped] listening binding
    by (intro conjI impI) simp_all
qed

theorem socket_error_stops_monitor_witness:
  "mphase (monitorRun sampleMonitorEnv 9000 listeningState
             [ErrorEv (Error ''read ECONNRESET'') None, MessageEv [1]]) = Stopped \<and>
   caller (monitorRun sampleMonitorEnv 9000 listeningState
             [ErrorEv (Error ''read ECONNRESET'') None, MessageEv [1]]) = Returned \<and>
   mconsole (monitorRun sampleMonitorEnv 9000 listeningState
             [ErrorEv (Error ''read ECONNRESET'') None, MessageEv [1]]) =
     [ErrorText ''Socket error:'', ErrorObj (Error ''read ECONNRESET''),
      ErrorText ''Socket error in monitor:'', ErrorText ''read ECONNRESET'']"
proof -
  have l: "mphase listeningState = Listening" "mphase listeningState \<noteq> Stopped"
    "caller listeningState = Returned" "mconsole listeningState = []"
    by (simp_all add: listeningState_def)
  note t = socket_error_stops_monitor [of listeningState sampleMonitorEnv 9000
      "Error ''read ECONNRESET''" None "[MessageEv [1]]"]
  have run: "monitorRun sampleMonitorEnv 9000 listeningState
             [ErrorEv (Error ''read ECONNRESET'') None, MessageEv [1]] =
        monitorStep sampleMonitorEnv 9000 listeningState (ErrorEv (Error ''read ECONNRESET'') None)"
    using t l(2) by simp
  show ?thesis
    unfolding run using t l by simp
qed

text \<open>
  C3, as stated: an argument whose tag is not recognized is surfaced as an \<open>Unknown\<close>
  variant and the rest of the message is still delivered. The handler has no such
  variant and prints what \<open>osc.fromBuffer\<close> returns; for the message \<open>/a\<close> with the
  type tags \<open>,x\<close> the decoder throws, the \<open>catch\<close> prints the error, and nothing of the
  message is delivered, in either revision of monitor.ts.
\<close>

theorem unknown_tag_discards_message:
  "onMessage sampleTagEnv 9000 unknownTagBuffer =
     [ErrorText ''Error parsing OSC message:'',
      ErrorText ''I don't understand the argument code x''] \<and>
   onMessageLogged sampleTagEnv True ''2026-01-01 00:00:00.000000'' unknownTagBuffer
       \<lparr>rAddress = ''127.0.0.1'', rPort = 50000\<rparr> =
     ([ErrorText ''Error parsing OSC message:'',
       ErrorText ''I don't understand the argument code x''], [])"
  by (simp add: onMessage_def onMessageLogged_def sampleTagEnv_def)

lemma arguments_rendered:
  assumes "fromBuffer env buffer = Inr m" "address m = Some a" "a \<noteq> []"
    and "args m = Some as" "as \<noteq> []"
  shows
    "onMessage env port buffer =
       [Log (''['' @ showInt port @ ''] '' @ padEnd a 30 @ '' '' @
             join '', '' (argValues (valueToString env) as) @
             '' ('' @ join '', '' (argTypes as) @ '')'')] \<and>
     onMessageLogged env logStream stamp buffer rinfo =
       ([Log (stamp @ '' '' @ rAddress rinfo @ '':'' @ showInt (rPort rinfo) @ '' '' @
              showNat (length buffer) @ ''B '' @ padEnd a 30 @ '' '' @
              join '', '' (argValues (valueToString env) as) @
              '' ('' @ join '', '' (argTypes as) @ '')'')],
        if logStream
        then [stamp @ '' '' @ rAddress rinfo @ '':'' @ showInt (rPort rinfo) @ '' '' @
              showNat (length buffer) @ ''B '' @ padEnd a 30 @ '' '' @
              join '', '' (argValues (valueToString env) as) @
              '' ('' @ join '', '' (argTypes as) @ '')'' @ [CHR 0x0A]]
        else []) \<and>
     length (argValues (valueToString env) as) = length as \<and>
     length (argTypes as) = length as \<and>
     (\<forall>i<length as.
        (as ! i = None \<longrightarrow>
           argValues (valueToString env) as ! i = ''null'' \<and> argTypes as ! i = ''null'') \<and>
        (\<forall>x. as ! i = Some x \<and> argValue x = None \<longrightarrow>
           argValues (valueToString env) as ! i = ''null'') \<and>
        (\<forall>x v. as ! i = Some x \<and> argValue x = Some v \<longrightarrow>
           argValues (valueToString env) as ! i = valueToString env v) \<and>
        (\<forall>x. as ! i = Some x \<and> (argType x = None \<or> argType x = Some []) \<longrightarrow>
           argTypes as ! i = ''unknown'') \<and>
        (\<forall>x t. as ! i = Some x \<and> argType x = Some t \<and> t \<noteq> [] \<longrightarrow>
           argTypes as ! i = t))"
proof -
  have h1: "onMessage env port buffer =
       [Log (''['' @ showInt port @ ''] '' @ padEnd a 30 @ '' '' @
             join '', '' (argValues (valueToString env) as) @
             '' ('' @ join '', '' (argTypes as) @ '')'')]"
    using assms by (simp add: onMessage_def)
  have h2: "onMessageLogged env logStream stamp buffer rinfo =
       ([Log (stamp @ '' '' @ rAddress rinfo @ '':'' @ showInt (rPort rinfo) @ '' '' @
              showNat (length buffer) @ ''B '' @ padEnd a 30 @ '' '' @
              join '', '' (argValues (valueToString env) as) @
              '' ('' @ join '', '' (argTypes as) @ '')'')],
        if logStream
        then [stamp @ '' '' @ rAddress rinfo @ '':'' @ showInt (rPort rinfo) @ '' '' @
              showNat (length buffer) @ ''B '' @ padEnd a 30 @ '' '' @
              join '', '' (argValues (valueToString env) as) @
              '' ('' @ join '', '' (argTypes as) @ '')'' @ [CHR 0x0A]]
        else [])"
    using assms by (simp add: onMessageLogged_def Let_def)
  have h3: "length (argValues (valueToString env) as) = length as" "length (argTypes as) = length as"
    by (simp_all add: argValues_def argTypes_def)
  have h4: "\<forall>i<length as.
        (as ! i = None \<longrightarrow>
           argValues (valueToString env) as ! i = ''null'' \<and> argTypes as ! i = ''null'') \<and>
        (\<forall>x. as ! i = Some x \<and> argValue x = None \<longrightarrow>
           argValues (valueToString env) as ! i = ''null'') \<and>
        (\<forall>x v. as ! i = Some x \<and> argValue x = Some v \<longrightarrow>
           argValues (valueToString env) as ! i = valueToString env v) \<and>
        (\<forall>x. as ! i = Some x \<and> (argType x = None \<or> argType x = Some []) \<longrightarrow>
           argTypes as ! i = ''unknown'') \<and>
        (\<forall>x t. as ! i = Some x \<and> argType x = Some t \<and> t \<noteq> [] \<longrightarrow>
           argTypes as ! i = t)"
    by (auto simp: argValues_def argTypes_def)
  show ?thesis by (intro conjI h1 h2 h3 h4)
qed


text \<open>
  C3, amended: for every received buffer, in both revisions of monitor.ts: when
  \<open>osc.fromBuffer\<close> throws, as it does for an argument whose tag it does not recognize,
  the handler prints one error report, the whole message is discarded (nothing goes
  to the log file) and the monitor keeps listening; when it returns a message with an
  address and at least one argument, the handler prints exactly one line with every
  argument in order: \<open>null\<close> for the value of an argument that is \<open>null\<close> or has no
  value, the text of the value otherwise; for the type, \<open>null\<close> for a \<open>null\<close> argument,
  \<open>unknown\<close> when the type is missing or empty, and the type otherwise.
\<close>

theorem message_discarded_or_arguments_rendered:
  "(\<forall>err. fromBuffer env buffer = Inl err \<longrightarrow>
      onMessage env port buffer =
        [ErrorText ''Error parsing OSC message:'', ErrorText (message err)] \<and>
      onMessageLogged env logStream stamp buffer rinfo =
        ([ErrorText ''Error parsing OSC message:'', ErrorText (message err)], []) \<and>
      (mphase st = Listening \<longrightarrow>
         mphase (monitorStep env port st (MessageEv buffer)) = Listening \<and>
         mconsole (monitorStep env port st (MessageEv buffer)) =
           mconsole st @ [ErrorText ''Error parsing OSC message:'', ErrorText (message err)])) \<and>
   (\<forall>m a as.
      fromBuffer env buffer = Inr m \<and> address m = Some a \<and> a \<noteq> [] \<and>
      args m = Some as \<and> as \<noteq> [] \<longrightarrow>
     onMessage env port buffer =
            [Log (''['' @ showInt port @ ''] '' @ padEnd a 30 @ '' '' @
                  join '', '' (argValues (valueToString env) as) @
                  '' ('' @ join '', '' (argTypes as) @ '')'')] \<and>
          onMessageLogged env logStream stamp buffer rinfo =
            ([Log (stamp @ '' '' @ rAddress rinfo @ '':'' @ showInt (rPort rinfo) @ '' '' @
                   showNat (length buffer) @ ''B '' @ padEnd a 30 @ '' '' @
                   join '', '' (argValues (valueToString env) as) @
                   '' ('' @ join '', '' (argTypes as) @ '')'')],
             if logStream
             then [stamp @ '' '' @ rAddress rinfo @ '':'' @ showInt (rPort rinfo) @ '' '' @
                   showNat (length buffer) @ ''B '' @ padEnd a 30 @ '' '' @
                   join '', '' (argValues (valueToString env) as) @
                   '' ('' @ join '', '' (argTypes as) @ '')'' @ [CHR 0x0A]]
             else []) \<and>
          length (argValues (valueToString env) as) = length as \<and>
          length (argTypes as) = length as \<and>
          (\<forall>i<length as.
             (as ! i = None \<longrightarrow>
                argValues (valueToString env) as ! i = ''null'' \<and> argTypes as ! i = ''null'') \<and>
             (\<forall>x. as ! i = Some x \<and> argValue x = None \<longrightarrow>
                argValues (valueToString env) as ! i = ''null'') \<and>
             (\<forall>x v. as ! i = Some x \<and> argValue x = Some v \<longrightarrow>
                argValues (valueToString env) as ! i = valueToString env v) \<and>
             (\<forall>x. as ! i = Some x \<and> (argType x = None \<or> argType x = Some []) \<longrightarrow>
                argTypes as ! i = ''unknown'') \<and>
             (\<forall>x t. as ! i = Some x \<and> argType x = Some t \<and> t \<noteq> [] \<longrightarrow>
                argTypes as ! i = t)))"
  apply (rule conjI)
   apply (intro allI impI conjI)
      apply (erule onMessage_failed)
     apply (simp add: onMessageLogged_def)
    apply (simp add: monitorStep_message mphase_mprint)
   apply (simp add: monitorStep_message onMessage_failed mprint_def)
  apply (intro allI impI)
  apply (elim conjE)
  apply (rule arguments_rendered; assumption)
  done

theorem message_discarded_or_arguments_rendered_witness:
  "onMessage sampleTagEnv 9000 nullTagBuffer =
     [Log (''[9000] '' @ padEnd ''/a'' 30 @ '' 1, null (integer, null)'')] \<and>
   mphase (monitorStep sampleTagEnv 9000 listeningState (MessageEv unknownTagBuffer)) =
     Listening \<and>
   mconsole (monitorStep sampleTagEnv 9000 listeningState (MessageEv unknownTagBuffer)) =
     [ErrorText ''Error parsing OSC message:'',
      ErrorText ''I don't understand the argument code x'']"
proof -
  let ?as = "[Some \<lparr>argType = Some ''integer'', argValue = Some ''1''\<rparr>,
              Some \<lparr>argType = Some ''null'', argValue = None\<rparr>]"
  let ?m = "\<lparr>address = Some ''/a'', args = Some ?as\<rparr>"
  have dec: "fromBuffer sampleTagEnv nullTagBuffer = Inr ?m \<and> address ?m = Some ''/a'' \<and>
             ''/a'' \<noteq> [] \<and> args ?m = Some ?as \<and> ?as \<noteq> []"
    by (simp add: sampleTagEnv_def nullTagBuffer_def unknownTagBuffer_def)
  have thr: "fromBuffer sampleTagEnv unknownTagBuffer =
               Inl (Error ''I don't understand the argument code x'')"
    by (simp add: sampleTagEnv_def)
  have l: "mphase listeningState = Listening" "mconsole listeningState = []"
    by (simp_all add: listeningState_def)
  note t1 = message_discarded_or_arguments_rendered
    [of sampleTagEnv nullTagBuffer 9000 False "[]" "\<lparr>rAddress = [], rPort = 0\<rparr>" listeningState,
     THEN conjunct2, rule_format, OF dec, THEN conjunct1]
  note t2 = message_discarded_or_arguments_rendered
    [of sampleTagEnv unknownTagBuffer 9000 False "[]" "\<lparr>rAddress = [], rPort = 0\<rparr>" listeningState,
     THEN conjunct1, rule_format, OF thr, THEN conjunct2, THEN conjunct2, rule_format, OF l(1)]
  have v: "valueToString sampleTagEnv = (\<lambda>v. v)" by (simp add: sampleTagEnv_def)
  have j: "''['' @ showInt 9000 @ ''] '' @ padEnd ''/a'' 30 @ '' '' @
             join '', '' (argValues (\<lambda>v. v) ?as) @ '' ('' @ join '', '' (argTypes ?as) @ '')'' =
           ''[9000] '' @ padEnd ''/a'' 30 @ '' 1, null (integer, null)''"
    by (simp add: argValues_def argTypes_def showInt_def showNat.simps digitChar_def)
  from t1 have a: "onMessage sampleTagEnv 9000 nullTagBuffer =
     [Log (''[9000] '' @ padEnd ''/a'' 30 @ '' 1, null (integer, null)'')]"
    by (simp only: v j)
  from t2 have b: "mphase (monitorStep sampleTagEnv 9000 listeningState (MessageEv unknownTagBuffer)) =
     Listening \<and>
   mconsole (monitorStep sampleTagEnv 9000 listeningState (MessageEv unknownTagBuffer)) =
     [ErrorText ''Error parsing OSC message:'',
      ErrorText ''I don't understand the argument code x'']"
    by (simp add: l)
  from a b show ?thesis by (rule conjI)
qed

end
